theory Spec2Isabelle
  imports Main "HOL-Library.Word" "HOL-Library.AList"
begin

unbundle bit_operations_syntax

section \<open>The tool-server connection manager (\<open>MCPService\<close>)\<close>

text \<open>
  A shallow embedding of \<open>server/src/services/mcpService.ts\<close>. The class keeps two
  tables, \<open>servers\<close> and \<open>connections\<close>; its methods mutate server objects that are
  shared by reference between the table and the event handlers of the transports, and
  its asynchronous parts (spawn, exit, data and timer callbacks) run as separate events.
  The embedding therefore passes an explicit state with a store of server objects, and
  has one function per method and per event handler.
\<close>

subsection \<open>JavaScript values\<close>

text \<open>
  Values that arrive as JSON. Numbers are the integers: every number the code compares
  or creates (request ids, \<open>Date.now()\<close>) is one. \<open>None\<close> of type \<open>json option\<close>
  stands for \<open>undefined\<close>.
\<close>

datatype json =
    JNull
  | JBool bool
  | JNum int
  | JStr string
  | JArr "json list"
  | JObj "(string \<times> json) list"

text \<open>Truthiness, as \<open>||\<close>, \<open>&&\<close> and \<open>if\<close> test it.\<close>

fun truthy :: "json option \<Rightarrow> bool" where
  "truthy None = False"
| "truthy (Some JNull) = False"
| "truthy (Some (JBool b)) = b"
| "truthy (Some (JNum n)) = (n \<noteq> 0)"
| "truthy (Some (JStr s)) = (s \<noteq> [])"
| "truthy (Some (JArr xs)) = True"
| "truthy (Some (JObj kvs)) = True"

text \<open>
  Reading the property \<open>k\<close> of a value other than \<open>null\<close>; none of the properties the
  code reads (\<open>id\<close>, \<open>result\<close>, \<open>tools\<close>, \<open>resources\<close>, \<open>name\<close>, \<open>description\<close>,
  \<open>inputSchema\<close>) exists on a number, boolean, string or array. Reading a property of
  \<open>null\<close> throws a TypeError, which every caller below handles before calling \<open>get_prop\<close>.
\<close>

fun get_prop :: "json \<Rightarrow> string \<Rightarrow> json option" where
  "get_prop (JObj kvs) k = map_of kvs k"
| "get_prop v k = None"

text \<open>\<open>v || d\<close> for an optional string: the empty string is falsy.\<close>

definition or_else :: "string option \<Rightarrow> string \<Rightarrow> string" where
  "or_else v d = (case v of None \<Rightarrow> d | Some s \<Rightarrow> if s = [] then d else s)"

text \<open>Object spread \<open>{...dst, ...src}\<close> on objects kept as association lists.\<close>

definition spread :: "(string \<times> 'v) list \<Rightarrow> (string \<times> 'v) list \<Rightarrow> (string \<times> 'v) list" where
  "spread dst src = fold (\<lambda>(k, v). AList.update k v) src dst"

text \<open>Decimal digits of a number, for the template \<open>`server-${index}`\<close>.\<close>

fun decimal :: "nat \<Rightarrow> string" where
  "decimal n =
     (if n < 10 then [''0123456789'' ! n]
      else decimal (n div 10) @ [''0123456789'' ! (n mod 10)])"

subsection \<open>Types of \<open>types/index.ts\<close>\<close>

text \<open>
  \<open>MCPTool\<close>, \<open>MCPToolCall\<close> and \<open>MCPServer\<close>; the fields carry a prefix because the
  interfaces share field names. A discovered tool copies \<open>tool.name\<close> of a value typed
  \<open>any\<close>, so the fields of a tool are JavaScript values.
\<close>

record MCPTool =
  t_name :: "json option"
  t_description :: "json option"
  t_inputSchema :: "json option"

record MCPToolCall =
  tc_id :: string
  tc_name :: string
  tc_arguments :: json

datatype status = Connected | Disconnected | Error

record MCPServer =
  s_id :: string
  s_name :: string
  s_url :: string
  s_transport :: string
  s_command :: "string option"
  s_args :: "string list option"
  s_env :: "(string \<times> string) list option"
  s_status :: status
  s_tools :: "MCPTool list"
  s_resources :: json
  s_disabled :: "bool option"

subsection \<open>The configuration document\<close>

text \<open>
  One entry of the document, at the shape the interface documents
  (\<open>{name, command, args, env, transport, disabled, tools?, resources?}\<close>, and \<open>id\<close>
  in the array format); every field may be absent. An entry that is \<open>null\<close> is \<open>None\<close>.
  The document is an object with a truthy \<open>mcpServers\<close> (its entries in enumeration
  order), an array, \<open>null\<close>, or any other value.
\<close>

record server_config =
  cfg_id :: "string option"
  cfg_name :: "string option"
  cfg_url :: "string option"
  cfg_transport :: "string option"
  cfg_command :: "string option"
  cfg_args :: "string list option"
  cfg_env :: "(string \<times> string) list option"
  cfg_tools :: "MCPTool list option"
  cfg_resources :: "json option"
  cfg_disabled :: "bool option"

datatype config =
    McpServers "(string \<times> server_config option) list"
  | DirectArray "server_config option list"
  | NullDocument
  | OtherDocument

subsection \<open>Errors\<close>

datatype failure =
    ServerNotFound string
  | ServerNotConnected string
  | ToolNotFound string string
  | NoConnection string
  | StdinNotAvailable
  | RequestTimeout string
  | WebSocketRequestTimeout string
  | TypeError
  | FailedToUpdateConfig

subsection \<open>The host\<close>

text \<open>
  What the code takes from the runtime and not from the repository: the environment of
  the host process, \<open>os.homedir()\<close> and \<open>os.userInfo().username\<close>, \<open>JSON.parse\<close> on a
  line of protocol text and on the configuration text (\<open>None\<close> when it throws), the
  string conversion of a template literal, whether \<open>new WebSocket(url)\<close> accepts the
  address, and whether \<open>fs.writeFile\<close> succeeds. Protocol text is a list of UTF-16 code
  units, as a JavaScript string is.
\<close>

type_synonym jsstring = "nat list"

record host =
  process_env :: "(string \<times> string) list"
  homedir :: string
  username :: string
  JSON_parse :: "jsstring \<Rightarrow> json option"
  JSON_parse_config :: "string \<Rightarrow> config option"
  String_of :: "json option \<Rightarrow> string"
  WebSocket_accepts :: "string \<Rightarrow> bool"
  writeFile_succeeds :: bool

subsection \<open>\<open>parseServerConfig\<close>\<close>

definition placeholder_tool :: "string \<Rightarrow> string \<Rightarrow> MCPTool" where
  "placeholder_tool ident nm =
     \<lparr> t_name = Some (JStr (ident @ ''_tool'')),
       t_description = Some (JStr (''Tool from '' @ nm)),
       t_inputSchema = Some (JObj [(''type'', JStr ''object''),
                                   (''properties'', JObj []),
                                   (''required'', JArr [])]) \<rparr>"

definition parseServerConfig :: "string \<Rightarrow> server_config option \<Rightarrow> MCPServer option" where
  "parseServerConfig ident config =
     (case config of
        None \<Rightarrow> None
      | Some c \<Rightarrow>
          (let server =
                 \<lparr> s_id = ident,
                   s_name = or_else (cfg_name c) ident,
                   s_url = or_else (cfg_url c) (''stdio://'' @ ident),
                   s_transport = or_else (cfg_transport c) ''stdio'',
                   s_command = cfg_command c,
                   s_args = Some (case cfg_args c of None \<Rightarrow> [] | Some a \<Rightarrow> a),
                   s_env = Some (case cfg_env c of None \<Rightarrow> [] | Some e \<Rightarrow> e),
                   s_status = Disconnected,
                   s_tools = (case cfg_tools c of None \<Rightarrow> [] | Some ts \<Rightarrow> ts),
                   s_resources = (case cfg_resources c of
                                    None \<Rightarrow> JArr []
                                  | Some r \<Rightarrow> if truthy (Some r) then r else JArr []),
                   s_disabled = Some (case cfg_disabled c of None \<Rightarrow> False | Some b \<Rightarrow> b) \<rparr>
           in Some (if s_tools server = [] \<and> or_else (s_command server) [] \<noteq> []
                    then server\<lparr> s_tools := [placeholder_tool ident (s_name server)] \<rparr>
                    else server)))"

subsection \<open>The state of the service\<close>

text \<open>
  \<open>objs\<close> is the store of server objects (a reference is an index), \<open>servers\<close> and
  \<open>connections\<close> are the two \<open>Map\<close>s in insertion order, \<open>handles\<close> holds every
  \<open>ChildProcess\<close> and \<open>WebSocket\<close> created so far (a handle is an index), \<open>calls\<close>
  every promise \<open>sendMessage\<close> has created, \<open>now\<close> is \<open>Date.now()\<close> and
  \<open>config_file\<close> the content of the configuration file.
\<close>

datatype kind = ChildProcess | WebSocket

record message =
  m_id :: "int option"
  m_method :: string
  m_params :: "json option"

record connection =
  k_kind :: kind
  k_server :: nat
  k_target :: string
  k_args :: "string list"
  k_env :: "(string \<times> string) list"
  k_stdin :: bool
  k_sent :: "message list"
  k_killed :: bool
  k_result :: "bool option"

datatype outcome = Pending | Resolved json | Rejected failure

datatype continuation = ToolCall | Initialize nat | ToolsList nat | ResourcesList nat

record call =
  c_conn :: nat
  c_kind :: kind
  c_message :: message
  c_serverName :: string
  c_buffer :: jsstring
  c_parsed :: "json list"
  c_listening :: bool
  c_deadline :: nat
  c_fired :: bool
  c_outcome :: outcome
  c_then :: continuation

record state =
  objs :: "MCPServer list"
  servers :: "(string \<times> nat) list"
  connections :: "(string \<times> nat) list"
  handles :: "connection list"
  calls :: "call list"
  now :: nat
  config_file :: string

definition set_status :: "nat \<Rightarrow> status \<Rightarrow> state \<Rightarrow> state" where
  "set_status r s st = st\<lparr> objs := (objs st)[r := (objs st ! r)\<lparr> s_status := s \<rparr>] \<rparr>"

text \<open>\<open>this.servers.set(server.id, server)\<close> for a freshly created object.\<close>

definition servers_set :: "MCPServer \<Rightarrow> state \<Rightarrow> state" where
  "servers_set server st =
     st\<lparr> objs := objs st @ [server],
         servers := AList.update (s_id server) (length (objs st)) (servers st) \<rparr>"

text \<open>\<open>this.servers.get(serverId)\<close>, dereferenced.\<close>

definition servers_get :: "state \<Rightarrow> string \<Rightarrow> MCPServer option" where
  "servers_get st serverId = map_option (\<lambda>r. objs st ! r) (map_of (servers st) serverId)"

subsection \<open>\<open>initializeExampleServers\<close> and \<open>loadServersFromConfig\<close>\<close>

definition string_property :: "string \<Rightarrow> json" where
  "string_property d = JObj [(''type'', JStr ''string''), (''description'', JStr d)]"

definition exampleServers :: "MCPServer list" where
  "exampleServers =
     [ \<lparr> s_id = ''filesystem'', s_name = ''File System Tools'', s_url = ''stdio://filesystem'',
         s_transport = ''stdio'', s_command = None, s_args = None, s_env = None,
         s_status = Disconnected,
         s_tools =
           [ \<lparr> t_name = Some (JStr ''read_file''),
               t_description = Some (JStr ''Read the contents of a file''),
               t_inputSchema = Some (JObj
                 [(''type'', JStr ''object''),
                  (''properties'', JObj [(''path'', string_property ''Path to the file'')]),
                  (''required'', JArr [JStr ''path''])]) \<rparr>,
             \<lparr> t_name = Some (JStr ''write_file''),
               t_description = Some (JStr ''Write content to a file''),
               t_inputSchema = Some (JObj
                 [(''type'', JStr ''object''),
                  (''properties'', JObj [(''path'', string_property ''Path to the file''),
                                         (''content'', string_property ''Content to write'')]),
                  (''required'', JArr [JStr ''path'', JStr ''content''])]) \<rparr> ],
         s_resources = JArr [], s_disabled = None \<rparr>,
       \<lparr> s_id = ''web-search'', s_name = ''Web Search Tools'', s_url = ''stdio://web-search'',
         s_transport = ''stdio'', s_command = None, s_args = None, s_env = None,
         s_status = Disconnected,
         s_tools =
           [ \<lparr> t_name = Some (JStr ''search_web''),
               t_description = Some (JStr ''Search the web for information''),
               t_inputSchema = Some (JObj
                 [(''type'', JStr ''object''),
                  (''properties'', JObj
                     [(''query'', string_property ''Search query''),
                      (''limit'', JObj [(''type'', JStr ''number''),
                                        (''description'', JStr ''Maximum number of results'')])]),
                  (''required'', JArr [JStr ''query''])]) \<rparr> ],
         s_resources = JArr [], s_disabled = None \<rparr> ]"

definition initializeExampleServers :: "state \<Rightarrow> state" where
  "initializeExampleServers st = fold servers_set exampleServers st"

text \<open>
  The loop over \<open>Object.entries(config.mcpServers)\<close>: an entry that does not parse
  (\<open>parseServerConfig\<close> returned \<open>null\<close>) is skipped.
\<close>

definition parse_entries :: "(string \<times> server_config option) list \<Rightarrow> MCPServer list" where
  "parse_entries es = List.map_filter (\<lambda>(serverId, serverConfig). parseServerConfig serverId serverConfig) es"

text \<open>
  The \<open>forEach\<close> over a document that is an array, from index \<open>i\<close>: reading
  \<open>serverConfig.id\<close> of a \<open>null\<close> entry throws outside any \<open>try\<close>, which ends the whole
  load.
\<close>

fun parse_array :: "nat \<Rightarrow> server_config option list \<Rightarrow> MCPServer list option" where
  "parse_array i [] = Some []"
| "parse_array i (None # cs) = None"
| "parse_array i (Some c # cs) =
     (case parse_array (Suc i) cs of
        None \<Rightarrow> None
      | Some rest \<Rightarrow>
          (case parseServerConfig (or_else (cfg_id c) (''server-'' @ decimal i)) (Some c) of
             None \<Rightarrow> Some rest
           | Some server \<Rightarrow> Some (server # rest)))"

definition install :: "MCPServer list \<Rightarrow> state \<Rightarrow> state" where
  "install parsed st =
     (if parsed = [] then initializeExampleServers st else fold servers_set parsed st)"

text \<open>The servers \<open>install\<close> puts into the table.\<close>

definition installed :: "MCPServer list \<Rightarrow> MCPServer list" where
  "installed parsed = (if parsed = [] then exampleServers else parsed)"

text \<open>The array \<open>servers\<close> the method builds before it touches the table.\<close>

fun parsed_servers :: "config \<Rightarrow> failure + MCPServer list" where
  "parsed_servers NullDocument = Inl TypeError"
| "parsed_servers (McpServers es) = Inr (parse_entries es)"
| "parsed_servers (DirectArray cs) =
     (case parse_array 0 cs of None \<Rightarrow> Inl TypeError | Some parsed \<Rightarrow> Inr parsed)"
| "parsed_servers OtherDocument = Inr []"

definition loadServersFromConfig :: "config \<Rightarrow> state \<Rightarrow> failure + state" where
  "loadServersFromConfig config st =
     (case parsed_servers config of
        Inl e \<Rightarrow> Inl e
      | Inr parsed \<Rightarrow> Inr (install parsed st))"

subsection \<open>\<open>updateConfig\<close>\<close>

text \<open>
  Every failure inside the \<open>try\<close> is rethrown as \<open>Failed to update config\<close>; the file
  written before the failure stays written.
\<close>

definition updateConfig :: "host \<Rightarrow> string \<Rightarrow> state \<Rightarrow> (failure + unit) \<times> state" where
  "updateConfig h configContent st =
     (case JSON_parse_config h configContent of
        None \<Rightarrow> (Inl FailedToUpdateConfig, st)
      | Some config \<Rightarrow>
          if \<not> writeFile_succeeds h then (Inl FailedToUpdateConfig, st)
          else
            (let st1 = st\<lparr> config_file := configContent \<rparr>
             in case loadServersFromConfig config st1 of
                  Inl e \<Rightarrow> (Inl FailedToUpdateConfig, st1)
                | Inr st2 \<Rightarrow> (Inr (), st2)))"

subsection \<open>\<open>getAvailableServers\<close> and \<open>getAvailableTools\<close>\<close>

definition getAvailableServers :: "state \<Rightarrow> MCPServer list" where
  "getAvailableServers st = map (\<lambda>(serverId, r). objs st ! r) (servers st)"


subsection \<open>Connecting\<close>

text \<open>
  The environment of the child process: the object literal
  \<open>{ ...process.env, ...server.env, PATH: \<dots>, SHELL: \<dots>, HOME: \<dots>, USER: \<dots> }\<close>, in which a later
  entry overwrites an earlier one with the same key.
\<close>

definition server_env :: "MCPServer \<Rightarrow> (string \<times> string) list" where
  "server_env server = (case s_env server of None \<Rightarrow> [] | Some e \<Rightarrow> e)"

definition mergedEnv :: "host \<Rightarrow> MCPServer \<Rightarrow> (string \<times> string) list" where
  "mergedEnv h server =
     AList.update ''USER'' (or_else (map_of (process_env h) ''USER'') (username h))
    (AList.update ''HOME'' (or_else (map_of (process_env h) ''HOME'') (homedir h))
    (AList.update ''SHELL'' (or_else (map_of (process_env h) ''SHELL'') ''/bin/zsh'')
    (AList.update ''PATH'' (or_else (map_of (process_env h) ''PATH'')
                                    ''/usr/local/bin:/usr/bin:/bin:/usr/sbin:/sbin'')
    (spread (spread [] (process_env h)) (server_env server)))))"

text \<open>
  A connect call returns at once (\<open>Returned\<close>), throws (\<open>Threw\<close>), or leaves a promise
  that the events of the new transport settle (\<open>Awaiting\<close> the handle).
\<close>

datatype connect_result = Returned bool | Awaiting nat | Threw failure

definition connectStdioServer :: "host \<Rightarrow> nat \<Rightarrow> state \<Rightarrow> connect_result \<times> state" where
  "connectStdioServer h r st =
     (let server = objs st ! r in
      if or_else (s_command server) [] = []
      then (Returned True, set_status r Connected st)
      else (Awaiting (length (handles st)),
            st\<lparr> handles := handles st @
                  [\<lparr> k_kind = ChildProcess, k_server = r,
                     k_target = or_else (s_command server) [],
                     k_args = (case s_args server of None \<Rightarrow> [] | Some a \<Rightarrow> a),
                     k_env = mergedEnv h server,
                     k_stdin = True, k_sent = [], k_killed = False, k_result = None \<rparr>] \<rparr>))"

definition connectWebSocketServer :: "host \<Rightarrow> nat \<Rightarrow> state \<Rightarrow> connect_result \<times> state" where
  "connectWebSocketServer h r st =
     (let server = objs st ! r in
      if WebSocket_accepts h (s_url server)
      then (Awaiting (length (handles st)),
            st\<lparr> handles := handles st @
                  [\<lparr> k_kind = WebSocket, k_server = r, k_target = s_url server,
                     k_args = [], k_env = [],
                     k_stdin = False, k_sent = [], k_killed = False, k_result = None \<rparr>] \<rparr>)
      else (Returned False, st))"

definition connectSSEServer :: "nat \<Rightarrow> state \<Rightarrow> connect_result \<times> state" where
  "connectSSEServer r st = (Returned False, st)"

definition connectToServer :: "host \<Rightarrow> string \<Rightarrow> state \<Rightarrow> connect_result \<times> state" where
  "connectToServer h serverId st =
     (case map_of (servers st) serverId of
        None \<Rightarrow> (Threw (ServerNotFound serverId), st)
      | Some r \<Rightarrow>
          (let server = objs st ! r in
           if s_transport server = ''stdio'' then connectStdioServer h r st
           else if s_transport server = ''websocket'' then connectWebSocketServer h r st
           else if s_transport server = ''sse'' then connectSSEServer r st
           else (Returned False, set_status r Error st)))"

subsection \<open>\<open>sendMessage\<close> and \<open>sendNotification\<close>\<close>

text \<open>
  \<open>sendMessage\<close> writes the request, registers its response handler on the transport
  and starts its 120 second timer; the promise it returns is the new entry of \<open>calls\<close>,
  whose index is the result. The text written is \<open>JSON.stringify(message)\<close> and a
  newline; \<open>k_sent\<close> keeps the message itself.
\<close>

definition timeoutMs :: nat where
  "timeoutMs = 120000"

definition serverName_of :: "state \<Rightarrow> string \<Rightarrow> string" where
  "serverName_of st serverId =
     (case servers_get st serverId of
        None \<Rightarrow> serverId
      | Some server \<Rightarrow> if s_name server = [] then serverId else s_name server)"

definition sendMessage :: "string \<Rightarrow> message \<Rightarrow> continuation \<Rightarrow> state \<Rightarrow> (failure + nat) \<times> state" where
  "sendMessage serverId msg k st =
     (case map_of (connections st) serverId of
        None \<Rightarrow> (Inl (NoConnection serverId), st)
      | Some p \<Rightarrow>
          (let connection = handles st ! p in
           if k_kind connection = ChildProcess \<and> \<not> k_stdin connection
           then (Inl StdinNotAvailable, st)
           else (Inr (length (calls st)),
                 st\<lparr> handles := (handles st)[p := connection\<lparr> k_sent := k_sent connection @ [msg] \<rparr>],
                     calls := calls st @
                       [\<lparr> c_conn = p, c_kind = k_kind connection, c_message = msg,
                          c_serverName = serverName_of st serverId,
                          c_buffer = [], c_parsed = [], c_listening = True,
                          c_deadline = now st + timeoutMs, c_fired = False,
                          c_outcome = Pending, c_then = k \<rparr>] \<rparr>)))"

definition sendNotification :: "string \<Rightarrow> message \<Rightarrow> state \<Rightarrow> state" where
  "sendNotification serverId msg st =
     (case map_of (connections st) serverId of
        None \<Rightarrow> st
      | Some p \<Rightarrow>
          (let connection = handles st ! p in
           if k_kind connection = ChildProcess \<and> \<not> k_stdin connection then st
           else st\<lparr> handles := (handles st)[p := connection\<lparr> k_sent := k_sent connection @ [msg] \<rparr>] \<rparr>))"

subsection \<open>The response handlers\<close>

text \<open>
  \<open>data.toString()\<close> of a \<open>Buffer\<close> decodes the bytes of that one chunk as UTF-8 and
  puts U+FFFD for every ill-formed or truncated sequence (the decoder of the Encoding
  Standard, which Node follows); a code point beyond U+FFFF becomes two code units.
\<close>

definition utf16 :: "nat \<Rightarrow> jsstring" where
  "utf16 cp =
     (if cp < 0x10000 then [cp]
      else [0xD800 + (cp - 0x10000) div 0x400, 0xDC00 + (cp - 0x10000) mod 0x400])"

text \<open>
  For a lead byte: the bits it contributes, the number of continuation bytes it needs
  and the range allowed for the first of them.
\<close>

definition lead_byte :: "nat \<Rightarrow> (nat \<times> nat \<times> nat \<times> nat) option" where
  "lead_byte b =
     (if 0xC2 \<le> b \<and> b \<le> 0xDF then Some (b mod 32, 1, 0x80, 0xBF)
      else if 0xE0 \<le> b \<and> b \<le> 0xEF
        then Some (b mod 16, 2, if b = 0xE0 then 0xA0 else 0x80, if b = 0xED then 0x9F else 0xBF)
      else if 0xF0 \<le> b \<and> b \<le> 0xF4
        then Some (b mod 8, 3, if b = 0xF0 then 0x90 else 0x80, if b = 0xF4 then 0x8F else 0xBF)
      else None)"

fun decode :: "nat list \<Rightarrow> jsstring"
  and decode_more :: "nat \<Rightarrow> nat \<Rightarrow> nat \<Rightarrow> nat \<Rightarrow> nat list \<Rightarrow> jsstring" where
  "decode [] = []"
| "decode (b # bs) =
     (if b < 0x80 then b # decode bs
      else case lead_byte b of
             None \<Rightarrow> 0xFFFD # decode bs
           | Some (cp, n, lo, hi) \<Rightarrow> decode_more cp n lo hi bs)"
| "decode_more cp n lo hi [] = [0xFFFD]"
| "decode_more cp n lo hi (b # bs) =
     (if b < lo \<or> hi < b then 0xFFFD # decode (b # bs)
      else if n \<le> 1 then utf16 (cp * 64 + b mod 64) @ decode bs
      else decode_more (cp * 64 + b mod 64) (n - 1) 0x80 0xBF bs)"

definition toString :: "8 word list \<Rightarrow> jsstring" where
  "toString data = decode (map unat data)"

text \<open>\<open>split('\n')\<close> and \<open>trim()\<close> on code units.\<close>

fun split_lines :: "jsstring \<Rightarrow> jsstring list" where
  "split_lines [] = [[]]"
| "split_lines (c # cs) =
     (if c = 10 then [] # split_lines cs
      else case split_lines cs of
             [] \<Rightarrow> [[c]]
           | l # ls \<Rightarrow> (c # l) # ls)"

definition white_space :: "nat \<Rightarrow> bool" where
  "white_space c \<longleftrightarrow>
     c \<in> {0x9, 0xA, 0xB, 0xC, 0xD, 0x20, 0xA0, 0x1680, 0x2028, 0x2029, 0x202F, 0x205F, 0x3000, 0xFEFF}
     \<or> (0x2000 \<le> c \<and> c \<le> 0x200A)"

definition trim :: "jsstring \<Rightarrow> jsstring" where
  "trim s = rev (dropWhile white_space (rev (dropWhile white_space s)))"

text \<open>\<open>response.id === message.id\<close>.\<close>

definition same_id :: "json option \<Rightarrow> int option \<Rightarrow> bool" where
  "same_id rid mid = (case mid of None \<Rightarrow> rid = None | Some i \<Rightarrow> rid = Some (JNum i))"

text \<open>
  The \<open>for\<close> loop of the stdio handler over the complete lines. It returns the
  matching response if one is found (the handler then returns at once), the value of
  \<open>processedLength\<close>, and the values \<open>JSON.parse\<close> has returned so far (the frames the
  handler logs as parsed). Reading \<open>response.id\<close> of \<open>null\<close> throws inside the \<open>try\<close>, so
  that line is passed over like one that does not parse.
\<close>

fun process_lines :: "(jsstring \<Rightarrow> json option) \<Rightarrow> int option \<Rightarrow> jsstring list \<Rightarrow> nat \<Rightarrow> json list
    \<Rightarrow> json option \<times> nat \<times> json list" where
  "process_lines parse mid [] processedLength parsed = (None, processedLength, parsed)"
| "process_lines parse mid (l # ls) processedLength parsed =
     (let line = trim l; processedLength = processedLength + (length l + 1) in
      if line = [] then process_lines parse mid ls processedLength parsed
      else case parse line of
             None \<Rightarrow> process_lines parse mid ls processedLength parsed
           | Some JNull \<Rightarrow> process_lines parse mid ls processedLength (parsed @ [JNull])
           | Some response \<Rightarrow>
               if same_id (get_prop response ''id'') mid
               then (Some response, processedLength, parsed @ [response])
               else process_lines parse mid ls processedLength (parsed @ [response]))"

text \<open>A promise settles once: \<open>resolve\<close> and \<open>reject\<close> on a settled promise do nothing.\<close>

definition settle :: "outcome \<Rightarrow> call \<Rightarrow> call" where
  "settle out c = (if c_outcome c = Pending then c\<lparr> c_outcome := out \<rparr> else c)"

definition responseHandler :: "(jsstring \<Rightarrow> json option) \<Rightarrow> jsstring \<Rightarrow> call \<Rightarrow> call" where
  "responseHandler parse rawData c =
     (let responseBuffer = c_buffer c @ rawData;
          lines = split_lines responseBuffer
      in case process_lines parse (m_id (c_message c)) (butlast lines) 0 (c_parsed c) of
           (Some response, processedLength, parsed) \<Rightarrow>
             settle (Resolved response)
               (c\<lparr> c_buffer := responseBuffer, c_parsed := parsed, c_listening := False \<rparr>)
         | (None, processedLength, parsed) \<Rightarrow>
             c\<lparr> c_buffer := (if processedLength > 0 then drop processedLength responseBuffer
                              else responseBuffer),
                c_parsed := parsed \<rparr>)"

definition wsResponseHandler :: "(jsstring \<Rightarrow> json option) \<Rightarrow> jsstring \<Rightarrow> call \<Rightarrow> call" where
  "wsResponseHandler parse data c =
     (let wsResponseBuffer = c_buffer c @ data in
      case parse wsResponseBuffer of
        None \<Rightarrow> c\<lparr> c_buffer := wsResponseBuffer \<rparr>
      | Some JNull \<Rightarrow> c\<lparr> c_buffer := wsResponseBuffer \<rparr>
      | Some response \<Rightarrow>
          if same_id (get_prop response ''id'') (m_id (c_message c))
          then settle (Resolved response) (c\<lparr> c_buffer := wsResponseBuffer, c_listening := False \<rparr>)
          else c\<lparr> c_buffer := wsResponseBuffer \<rparr>)"

text \<open>The callback of \<open>setTimeout\<close>.\<close>

definition timeout_error :: "kind \<Rightarrow> string \<Rightarrow> failure" where
  "timeout_error k serverName =
     (case k of
        ChildProcess \<Rightarrow> RequestTimeout serverName
      | WebSocket \<Rightarrow> WebSocketRequestTimeout serverName)"

definition timeout :: "call \<Rightarrow> call" where
  "timeout c =
     settle (Rejected (timeout_error (c_kind c) (c_serverName c)))
            (c\<lparr> c_listening := False, c_fired := True \<rparr>)"

text \<open>
  What one chunk from transport \<open>p\<close> does to a call: only a handler that is still
  registered on that transport runs.
\<close>

definition deliver :: "host \<Rightarrow> nat \<Rightarrow> jsstring \<Rightarrow> call \<Rightarrow> call" where
  "deliver h p chunk c =
     (if c_conn c = p \<and> c_listening c
      then (case c_kind c of
              ChildProcess \<Rightarrow> responseHandler (JSON_parse h) chunk c
            | WebSocket \<Rightarrow> wsResponseHandler (JSON_parse h) chunk c)
      else c)"

text \<open>What the clock reaching \<open>t\<close> does to a call: a timer that is due and has not run, runs.\<close>

definition expire :: "nat \<Rightarrow> call \<Rightarrow> call" where
  "expire t c = (if \<not> c_fired c \<and> c_deadline c \<le> t then timeout c else c)"

text \<open>
  The chunks of one stream, as the standard output of the child delivers them to the
  handler of one call.
\<close>

definition feed :: "host \<Rightarrow> 8 word list list \<Rightarrow> call \<Rightarrow> call" where
  "feed h chunks c = fold (\<lambda>data. deliver h (c_conn c) (toString data)) chunks c"

subsection \<open>\<open>initializeServerConnection\<close>\<close>

text \<open>
  The method awaits three requests in turn. Each request carries, as its continuation,
  the part of the method that runs when its response arrives; a request that is
  rejected, and a failure while continuing, end the method (the caller only logs).
\<close>

definition initialize_request :: message where
  "initialize_request =
     \<lparr> m_id = Some 1, m_method = ''initialize'',
       m_params = Some (JObj
         [(''protocolVersion'', JStr ''2024-11-05''),
          (''capabilities'', JObj [(''tools'', JObj []), (''resources'', JObj [])]),
          (''clientInfo'', JObj [(''name'', JStr ''webchat-ui''), (''version'', JStr ''1.0.0'')])]) \<rparr>"

definition initializeServerConnection :: "nat \<Rightarrow> state \<Rightarrow> state" where
  "initializeServerConnection r st =
     snd (sendMessage (s_id (objs st ! r)) initialize_request (Initialize r) st)"

text \<open>Steps 2 and 3: the \<open>initialized\<close> notification, then the \<open>tools/list\<close> request.\<close>

definition after_initialize :: "nat \<Rightarrow> state \<Rightarrow> state" where
  "after_initialize r st =
     (let serverId = s_id (objs st ! r);
          st1 = sendNotification serverId
                  \<lparr> m_id = None, m_method = ''notifications/initialized'', m_params = None \<rparr> st
      in snd (sendMessage serverId
                \<lparr> m_id = Some 2, m_method = ''tools/list'', m_params = None \<rparr> (ToolsList r) st1))"

text \<open>
  Step 4, the function mapped over \<open>toolsResponse.result.tools\<close>; reading \<open>tool.name\<close> of a
  \<open>null\<close> element throws.
\<close>

definition discovered_tool :: "host \<Rightarrow> string \<Rightarrow> json \<Rightarrow> MCPTool option" where
  "discovered_tool h serverName tool =
     (if tool = JNull then None
      else Some
        \<lparr> t_name = get_prop tool ''name'',
          t_description =
            (if truthy (get_prop tool ''description'') then get_prop tool ''description''
             else Some (JStr (''Tool '' @ String_of h (get_prop tool ''name'') @ '' from '' @ serverName))),
          t_inputSchema =
            (if truthy (get_prop tool ''inputSchema'') then get_prop tool ''inputSchema''
             else Some (JObj [(''type'', JStr ''object''),
                              (''properties'', JObj []),
                              (''required'', JArr [])])) \<rparr>)"

text \<open>\<open>a && a.k\<close> for a response \<open>a\<close>.\<close>

definition and_prop :: "json option \<Rightarrow> string \<Rightarrow> json option" where
  "and_prop a k = (case a of None \<Rightarrow> None | Some v \<Rightarrow> if truthy a then get_prop v k else a)"

text \<open>Step 5, first half: the \<open>resources/list\<close> request, whose failure is swallowed.\<close>

definition request_resources :: "nat \<Rightarrow> state \<Rightarrow> state" where
  "request_resources r st =
     snd (sendMessage (s_id (objs st ! r))
            \<lparr> m_id = Some 3, m_method = ''resources/list'', m_params = None \<rparr> (ResourcesList r) st)"

text \<open>
  Step 4: a truthy \<open>result.tools\<close> replaces \<open>server.tools\<close> by the mapped list; if it is
  not an array, or an element is \<open>null\<close>, \<open>.map\<close> throws and the method ends with the
  tools as they were.
\<close>

definition after_tools_list :: "host \<Rightarrow> json \<Rightarrow> nat \<Rightarrow> state \<Rightarrow> state" where
  "after_tools_list h toolsResponse r st =
     (let server = objs st ! r;
          tools = and_prop (get_prop toolsResponse ''result'') ''tools''
      in if truthy tools
         then (case tools of
                 Some (JArr ts) \<Rightarrow>
                   (case those (map (discovered_tool h (s_name server)) ts) of
                      None \<Rightarrow> st
                    | Some discovered \<Rightarrow>
                        request_resources r
                          (st\<lparr> objs := (objs st)[r := server\<lparr> s_tools := discovered \<rparr>] \<rparr>))
               | _ \<Rightarrow> st)
         else request_resources r st)"

definition after_resources_list :: "json \<Rightarrow> nat \<Rightarrow> state \<Rightarrow> state" where
  "after_resources_list resourcesResponse r st =
     (let resources = and_prop (get_prop resourcesResponse ''result'') ''resources''
      in case resources of
           None \<Rightarrow> st
         | Some v \<Rightarrow>
             if truthy resources
             then st\<lparr> objs := (objs st)[r := (objs st ! r)\<lparr> s_resources := v \<rparr>] \<rparr>
             else st)"

text \<open>
  What the code awaiting a call does once the call has settled. \<open>executeTool\<close> returns
  \<open>response.result\<close> (or rethrows) to its own caller and changes nothing.
\<close>

definition resume :: "host \<Rightarrow> call \<Rightarrow> state \<Rightarrow> state" where
  "resume h c st =
     (case c_outcome c of
        Resolved response \<Rightarrow>
          (case c_then c of
             ToolCall \<Rightarrow> st
           | Initialize r \<Rightarrow> after_initialize r st
           | ToolsList r \<Rightarrow> after_tools_list h response r st
           | ResourcesList r \<Rightarrow> after_resources_list response r st)
      | _ \<Rightarrow> st)"

text \<open>
  An event runs every handler first and the awaiting code afterwards (a continuation is a
  microtask): \<open>settled\<close> are the calls the event has just settled, in order.
\<close>

definition settled :: "call list \<Rightarrow> call list \<Rightarrow> call list" where
  "settled old new =
     map snd (filter (\<lambda>(c, c'). c_outcome c = Pending \<and> c_outcome c' \<noteq> Pending) (zip old new))"

definition after_handlers :: "host \<Rightarrow> call list \<Rightarrow> state \<Rightarrow> state" where
  "after_handlers h new st = fold (resume h) (settled (calls st) new) (st\<lparr> calls := new \<rparr>)"

subsection \<open>Events\<close>

definition resolve_connect :: "nat \<Rightarrow> bool \<Rightarrow> state \<Rightarrow> state" where
  "resolve_connect p b st =
     st\<lparr> handles := (handles st)[p := (handles st ! p)
            \<lparr> k_result := (case k_result (handles st ! p) of None \<Rightarrow> Some b | Some x \<Rightarrow> Some x) \<rparr>] \<rparr>"

definition has_kind :: "state \<Rightarrow> nat \<Rightarrow> kind \<Rightarrow> bool" where
  "has_kind st p k \<longleftrightarrow> p < length (handles st) \<and> k_kind (handles st ! p) = k"

text \<open>\<open>childProcess.on('spawn')\<close>, \<open>on('error')\<close> and \<open>on('exit')\<close>.\<close>

definition on_spawn :: "nat \<Rightarrow> state \<Rightarrow> state" where
  "on_spawn p st =
     (if has_kind st p ChildProcess
      then (let r = k_server (handles st ! p);
                st1 = set_status r Connected st;
                st2 = st1\<lparr> connections := AList.update (s_id (objs st1 ! r)) p (connections st1) \<rparr>
            in resolve_connect p True (initializeServerConnection r st2))
      else st)"

definition on_error :: "nat \<Rightarrow> state \<Rightarrow> state" where
  "on_error p st =
     (if p < length (handles st)
      then resolve_connect p False (set_status (k_server (handles st ! p)) Error st)
      else st)"

definition on_exit :: "nat \<Rightarrow> state \<Rightarrow> state" where
  "on_exit p st =
     (if p < length (handles st)
      then (let r = k_server (handles st ! p);
                st1 = set_status r Disconnected st
            in st1\<lparr> connections := AList.delete (s_id (objs st1 ! r)) (connections st1) \<rparr>)
      else st)"

text \<open>\<open>ws.on('open')\<close>; \<open>ws.on('error')\<close> is \<open>on_error\<close> and \<open>ws.on('close')\<close> is \<open>on_exit\<close>.\<close>

definition on_open :: "nat \<Rightarrow> state \<Rightarrow> state" where
  "on_open p st =
     (if has_kind st p WebSocket
      then (let r = k_server (handles st ! p);
                st1 = set_status r Connected st
            in resolve_connect p True
                 (st1\<lparr> connections := AList.update (s_id (objs st1 ! r)) p (connections st1) \<rparr>))
      else st)"

text \<open>A chunk on the standard output of child \<open>p\<close>, and a message on socket \<open>p\<close>.\<close>

definition on_data :: "host \<Rightarrow> nat \<Rightarrow> 8 word list \<Rightarrow> state \<Rightarrow> state" where
  "on_data h p data st =
     (if has_kind st p ChildProcess
      then after_handlers h (map (deliver h p (toString data)) (calls st)) st
      else st)"

definition on_message :: "host \<Rightarrow> nat \<Rightarrow> jsstring \<Rightarrow> state \<Rightarrow> state" where
  "on_message h p data st =
     (if has_kind st p WebSocket
      then after_handlers h (map (deliver h p data) (calls st)) st
      else st)"

text \<open>The clock reaches \<open>t\<close>, and the timers due by then run.\<close>

definition on_clock :: "host \<Rightarrow> nat \<Rightarrow> state \<Rightarrow> state" where
  "on_clock h t st =
     (if t < now st then st
      else after_handlers h (map (expire t) (calls st)) (st\<lparr> now := t \<rparr>))"

subsection \<open>\<open>executeTool\<close> and \<open>disconnectServer\<close>\<close>

definition tools_call :: "nat \<Rightarrow> MCPToolCall \<Rightarrow> message" where
  "tools_call t toolCall =
     \<lparr> m_id = Some (int t), m_method = ''tools/call'',
       m_params = Some (JObj [(''name'', JStr (tc_name toolCall)),
                              (''arguments'', tc_arguments toolCall)]) \<rparr>"

definition executeTool :: "string \<Rightarrow> MCPToolCall \<Rightarrow> state \<Rightarrow> (failure + nat) \<times> state" where
  "executeTool serverId toolCall st =
     (case servers_get st serverId of
        None \<Rightarrow> (Inl (ServerNotConnected serverId), st)
      | Some server \<Rightarrow>
          if s_status server \<noteq> Connected then (Inl (ServerNotConnected serverId), st)
          else (case find (\<lambda>t. t_name t = Some (JStr (tc_name toolCall))) (s_tools server) of
                  None \<Rightarrow> (Inl (ToolNotFound (tc_name toolCall) serverId), st)
                | Some tool \<Rightarrow> sendMessage serverId (tools_call (now st) toolCall) ToolCall st))"

definition disconnectServer :: "string \<Rightarrow> state \<Rightarrow> state" where
  "disconnectServer serverId st =
     (let st1 = (case map_of (connections st) serverId of
                   None \<Rightarrow> st
                 | Some p \<Rightarrow>
                     st\<lparr> handles := (handles st)[p := (handles st ! p)\<lparr> k_killed := True \<rparr>],
                         connections := AList.delete serverId (connections st) \<rparr>)
      in case map_of (servers st1) serverId of
           None \<Rightarrow> st1
         | Some r \<Rightarrow> set_status r Disconnected st1)"

subsection \<open>Runs\<close>

text \<open>
  Everything that can happen to the service: a call of one of its public methods, or
  an event of a transport or of the clock. A run is a list of them.
\<close>

datatype action =
    ConnectToServer string
  | DisconnectServer string
  | ExecuteTool string MCPToolCall
  | UpdateConfig string
  | Spawn nat
  | TransportError nat
  | Exit nat
  | Open nat
  | Data nat "8 word list"
  | SocketMessage nat jsstring
  | Clock nat

fun step :: "host \<Rightarrow> action \<Rightarrow> state \<Rightarrow> state" where
  "step h (ConnectToServer serverId) st = snd (connectToServer h serverId st)"
| "step h (DisconnectServer serverId) st = disconnectServer serverId st"
| "step h (ExecuteTool serverId toolCall) st = snd (executeTool serverId toolCall st)"
| "step h (UpdateConfig configContent) st = snd (updateConfig h configContent st)"
| "step h (Spawn p) st = on_spawn p st"
| "step h (TransportError p) st = on_error p st"
| "step h (Exit p) st = on_exit p st"
| "step h (Open p) st = on_open p st"
| "step h (Data p data) st = on_data h p data st"
| "step h (SocketMessage p data) st = on_message h p data st"
| "step h (Clock t) st = on_clock h t st"

definition run :: "host \<Rightarrow> action list \<Rightarrow> state \<Rightarrow> state" where
  "run h as st = fold (step h) as st"

subsection \<open>Notions used by the properties\<close>

text \<open>
  What one action can do to a call that exists already, with the clock before and
  after: nothing, a chunk delivered to its handler, or the clock reaching a later time.
\<close>

definition call_step :: "host \<Rightarrow> nat \<Rightarrow> nat \<Rightarrow> call \<Rightarrow> call \<Rightarrow> bool" where
  "call_step h t t' c c' \<longleftrightarrow>
     (t' = t \<and> (c' = c \<or> (\<exists>p chunk. c' = deliver h p chunk c)))
     \<or> (t \<le> t' \<and> c' = expire t' c)"

text \<open>
  The state of a call at time \<open>t\<close>: its timer has run exactly if the clock has reached
  its deadline, its handler is registered exactly while it is pending, a response that
  resolved it bears the id of its request, and only its timer, once it has run, has
  rejected it.
\<close>

definition call_inv :: "nat \<Rightarrow> call \<Rightarrow> bool" where
  "call_inv t c \<longleftrightarrow>
     (c_fired c \<longleftrightarrow> c_deadline c \<le> t)
     \<and> (c_listening c \<longleftrightarrow> c_outcome c = Pending)
     \<and> (c_outcome c = Pending \<longrightarrow> \<not> c_fired c)
     \<and> (case c_outcome c of
           Pending \<Rightarrow> True
         | Resolved response \<Rightarrow> same_id (get_prop response ''id'') (m_id (c_message c))
         | Rejected e \<Rightarrow> c_fired c \<and> e = timeout_error (c_kind c) (c_serverName c))"

text \<open>
  A successful discovery round for the server object \<open>r\<close>: a \<open>tools/list\<close> request of
  its initialisation was resolved by a response whose \<open>result.tools\<close> is an array
  without \<open>null\<close>, which is what step 4 can map.
\<close>

definition tools_of :: "json \<Rightarrow> json list option" where
  "tools_of response =
     (case and_prop (get_prop response ''result'') ''tools'' of
        Some (JArr ts) \<Rightarrow> if JNull \<in> set ts then None else Some ts
      | _ \<Rightarrow> None)"

definition discovery_for :: "nat \<Rightarrow> call \<Rightarrow> bool" where
  "discovery_for r c \<longleftrightarrow>
     c_then c = ToolsList r
     \<and> (case c_outcome c of
           Resolved response \<Rightarrow> tools_of response \<noteq> None
         | _ \<Rightarrow> False)"

text \<open>
  An action is quiet if it leaves the clock, the calls that exist and the tool lists of
  the server objects that exist as they are; it may add calls and server objects.
\<close>

definition quiet :: "state \<Rightarrow> state \<Rightarrow> bool" where
  "quiet st st' \<longleftrightarrow>
     now st' = now st \<and> (\<exists>extra. calls st' = calls st @ extra)
     \<and> length (objs st) \<le> length (objs st')
     \<and> (\<forall>q < length (objs st). s_tools (objs st' ! q) = s_tools (objs st ! q))"

text \<open>
  An event has handled the calls with \<open>f\<close> if every call that existed has become its
  image under \<open>f\<close>, and a tool list has changed only where a discovery round has
  succeeded.
\<close>

definition handled :: "(call \<Rightarrow> call) \<Rightarrow> state \<Rightarrow> state \<Rightarrow> bool" where
  "handled f st st' \<longleftrightarrow>
     (\<exists>extra. calls st' = map f (calls st) @ extra)
     \<and> length (objs st') = length (objs st)
     \<and> (\<forall>q. s_tools (objs st' ! q) \<noteq> s_tools (objs st ! q) \<longrightarrow>
            (\<exists>c \<in> set (calls st'). discovery_for q c))"

text \<open>The fields of a call that identify its request and never change.\<close>

definition same_request :: "call \<Rightarrow> call \<Rightarrow> bool" where
  "same_request c c' \<longleftrightarrow>
     c_conn c' = c_conn c \<and> c_kind c' = c_kind c \<and> c_message c' = c_message c
     \<and> c_serverName c' = c_serverName c \<and> c_deadline c' = c_deadline c \<and> c_then c' = c_then c"

text \<open>
  The handler of one call on chunks of text: a handler that has removed itself gets no
  further chunk. Two calls show the same frames if the handler has logged the same
  parsed values, the outcome is the same and the handler is registered in both or in
  neither; they agree if moreover they are equal as long as the handler is registered.
\<close>

definition feed_text :: "(jsstring \<Rightarrow> json option) \<Rightarrow> jsstring list \<Rightarrow> call \<Rightarrow> call" where
  "feed_text parse chunks c =
     fold (\<lambda>chunk c. if c_listening c then responseHandler parse chunk c else c) chunks c"

definition same_frames :: "call \<Rightarrow> call \<Rightarrow> bool" where
  "same_frames a b \<longleftrightarrow>
     c_parsed a = c_parsed b \<and> c_outcome a = c_outcome b \<and> c_listening a = c_listening b"

definition agree :: "call \<Rightarrow> call \<Rightarrow> bool" where
  "agree a b \<longleftrightarrow> (c_listening a \<longrightarrow> a = b) \<and> same_frames a b"

subsection \<open>Concrete inputs\<close>

text \<open>
  A host and a few states on which the properties below are exercised. The
  configuration is the scenario \<open>{"mcpServers":{"fs":{"name":"FS","command":"echo","args":[]}}}\<close>,
  here with an environment for the child; the second document declares another provider
  only. \<open>JSON.parse\<close> of the example host knows the texts the examples use.
\<close>

definition ascii :: "string \<Rightarrow> jsstring" where
  "ascii s = map of_char s"

definition bytes :: "string \<Rightarrow> 8 word list" where
  "bytes s = map of_char s"

definition no_config :: server_config where
  "no_config =
     \<lparr> cfg_id = None, cfg_name = None, cfg_url = None, cfg_transport = None,
       cfg_command = None, cfg_args = None, cfg_env = None, cfg_tools = None,
       cfg_resources = None, cfg_disabled = None \<rparr>"

definition fs_entry :: server_config where
  "fs_entry =
     no_config\<lparr> cfg_name := Some ''FS'', cfg_command := Some ''echo'', cfg_args := Some [],
                cfg_env := Some [(''PATH'', ''/opt/tools/bin''), (''API_KEY'', ''k'')] \<rparr>"

definition fs_document :: string where
  "fs_document = ''{\"mcpServers\":{\"fs\":{\"name\":\"FS\",\"command\":\"echo\",\"args\":[],\"env\":{\"PATH\":\"/opt/tools/bin\",\"API_KEY\":\"k\"}}}}''"

definition git_document :: string where
  "git_document = ''{\"mcpServers\":{\"git\":{\"command\":\"git-mcp\"}}}''"

definition fs_git_document :: string where
  "fs_git_document = ''{\"mcpServers\":{\"fs\":{\"name\":\"FS\",\"command\":\"echo\",\"args\":[]},\"git\":{\"command\":\"git-mcp\"}}}''"

definition ok_response :: json where
  "ok_response = JObj [(''jsonrpc'', JStr ''2.0''), (''id'', JNum 5000), (''result'', JStr ''ok'')]"

definition example_host :: host where
  "example_host =
     \<lparr> process_env = [(''PATH'', ''/usr/bin''), (''LANG'', ''C'')],
       homedir = ''/home/app'',
       username = ''app'',
       JSON_parse = (\<lambda>line.
         if line = ascii ''{\"jsonrpc\":\"2.0\",\"id\":5000,\"result\":\"ok\"}'' then Some ok_response
         else None),
       JSON_parse_config = (\<lambda>content.
         if content = fs_document then Some (McpServers [(''fs'', Some fs_entry)])
         else if content = git_document
           then Some (McpServers [(''git'', Some (no_config\<lparr> cfg_command := Some ''git-mcp'' \<rparr>))])
         else if content = fs_git_document
           then Some (McpServers
                  [(''fs'', Some (no_config\<lparr> cfg_name := Some ''FS'', cfg_command := Some ''echo'',
                                             cfg_args := Some [] \<rparr>)),
                   (''git'', Some (no_config\<lparr> cfg_command := Some ''git-mcp'' \<rparr>))])
         else None),
       String_of = (\<lambda>v. case v of Some (JStr s) \<Rightarrow> s | _ \<Rightarrow> ''undefined''),
       WebSocket_accepts = (\<lambda>url. True),
       writeFile_succeeds = True \<rparr>"

definition empty_state :: state where
  "empty_state =
     \<lparr> objs = [], servers = [], connections = [], handles = [], calls = [], now = 0,
       config_file = [] \<rparr>"

text \<open>The service with the built-in example providers, none connected.\<close>

definition example_state :: state where
  "example_state = initializeExampleServers empty_state"

text \<open>The provider \<open>fs\<close> as \<open>parseServerConfig\<close> derives it from its entry.\<close>

definition fs_server :: MCPServer where
  "fs_server =
     \<lparr> s_id = ''fs'', s_name = ''FS'', s_url = ''stdio://fs'', s_transport = ''stdio'',
       s_command = Some ''echo'', s_args = Some [],
       s_env = Some [(''PATH'', ''/opt/tools/bin''), (''API_KEY'', ''k'')],
       s_status = Disconnected, s_tools = [placeholder_tool ''fs'' ''FS''],
       s_resources = JArr [], s_disabled = Some False \<rparr>"

text \<open>
  The service at time 5000 after \<open>fs\<close> was loaded and connected and its child has
  spawned: the child is handle 0, and call 0 is the pending \<open>initialize\<close> request.
\<close>

definition fs_child :: connection where
  "fs_child =
     \<lparr> k_kind = ChildProcess, k_server = 0, k_target = ''echo'', k_args = [],
       k_env = mergedEnv example_host fs_server, k_stdin = True,
       k_sent = [initialize_request], k_killed = False, k_result = Some True \<rparr>"

definition initialize_call :: call where
  "initialize_call =
     \<lparr> c_conn = 0, c_kind = ChildProcess, c_message = initialize_request,
       c_serverName = ''FS'', c_buffer = [], c_parsed = [], c_listening = True,
       c_deadline = 5000 + timeoutMs, c_fired = False, c_outcome = Pending,
       c_then = Initialize 0 \<rparr>"

definition fs_connected :: state where
  "fs_connected =
     \<lparr> objs = [fs_server\<lparr> s_status := Connected \<rparr>], servers = [(''fs'', 0)],
       connections = [(''fs'', 0)], handles = [fs_child], calls = [initialize_call],
       now = 5000, config_file = fs_document \<rparr>"



definition placeholder_call :: MCPToolCall where
  "placeholder_call = \<lparr> tc_id = ''call-1'', tc_name = ''fs_tool'', tc_arguments = JObj [] \<rparr>"

text \<open>
  Two tool calls on \<open>fs\<close> in the same millisecond, and the line that answers the
  request with id 5000.
\<close>

definition one_call :: state where
  "one_call = snd (executeTool ''fs'' placeholder_call fs_connected)"

definition second_call :: MCPToolCall where
  "second_call = \<lparr> tc_id = ''call-2'', tc_name = ''fs_tool'', tc_arguments = JObj [(''path'', JStr ''/tmp'')] \<rparr>"

definition two_calls :: state where
  "two_calls = snd (executeTool ''fs'' second_call one_call)"

definition ok_line :: string where
  "ok_line = ''{\"jsonrpc\":\"2.0\",\"id\":5000,\"result\":\"ok\"}''"

text \<open>
  The reply \<open>{"id":1,"result":"\<dots>"}\<close> whose result is the letter U+00E9, two bytes in
  UTF-8, cut between these two bytes; and the text of the line, as it is when the bytes
  are decoded together and when each part is decoded alone.
\<close>

definition reply_head :: "8 word list" where
  "reply_head = bytes ''{\"id\":1,\"result\":\"'' @ [0xC3]"

definition reply_tail :: "8 word list" where
  "reply_tail = [0xA9] @ bytes ''\"}'' @ [0x0A]"

definition reply_text :: jsstring where
  "reply_text = ascii ''{\"id\":1,\"result\":\"'' @ [0xE9] @ ascii ''\"}''"

definition reply_text_split :: jsstring where
  "reply_text_split = ascii ''{\"id\":1,\"result\":\"'' @ [0xFFFD, 0xFFFD] @ ascii ''\"}''"

text \<open>
  A reload over a live connection. Starting with the built-in providers, a document
  gives \<open>filesystem\<close> a command, the provider is connected and its child (handle 0)
  spawns; then the document \<open>{}\<close> is loaded, which derives no provider, so the built-in
  providers are installed again. \<open>reloaded_state\<close> is the state after that: the table
  has the built-in \<open>filesystem\<close> without a command, and the connection of the child is
  still registered under its id.
\<close>

definition filesystem_document :: string where
  "filesystem_document = ''{\"mcpServers\":{\"filesystem\":{\"command\":\"fs-mcp\"}}}''"

definition empty_document :: string where
  "empty_document = ''{}''"

definition reload_host :: host where
  "reload_host =
     example_host\<lparr> JSON_parse_config := (\<lambda>content.
        if content = filesystem_document
          then Some (McpServers [(''filesystem'', Some (no_config\<lparr> cfg_command := Some ''fs-mcp'' \<rparr>))])
        else if content = empty_document then Some OtherDocument
        else None) \<rparr>"

definition fs_mcp_server :: MCPServer where
  "fs_mcp_server =
     \<lparr> s_id = ''filesystem'', s_name = ''filesystem'', s_url = ''stdio://filesystem'',
       s_transport = ''stdio'', s_command = Some ''fs-mcp'', s_args = Some [], s_env = Some [],
       s_status = Disconnected, s_tools = [placeholder_tool ''filesystem'' ''filesystem''],
       s_resources = JArr [], s_disabled = Some False \<rparr>"

definition fs_mcp_child :: connection where
  "fs_mcp_child =
     \<lparr> k_kind = ChildProcess, k_server = 2, k_target = ''fs-mcp'', k_args = [],
       k_env = mergedEnv reload_host fs_mcp_server, k_stdin = True,
       k_sent = [initialize_request], k_killed = False, k_result = Some True \<rparr>"

definition reloaded_state :: state where
  "reloaded_state =
     \<lparr> objs = exampleServers @ [fs_mcp_server\<lparr> s_status := Connected \<rparr>] @ exampleServers,
       servers = [(''filesystem'', 3), (''web-search'', 4)],
       connections = [(''filesystem'', 0)],
       handles = [fs_mcp_child],
       calls = [initialize_call\<lparr> c_serverName := ''filesystem'', c_deadline := timeoutMs,
                                 c_then := Initialize 2 \<rparr>],
       now = 0, config_file = empty_document \<rparr>"

definition read_file_call :: MCPToolCall where
  "read_file_call = \<lparr> tc_id = ''call-1'', tc_name = ''read_file'', tc_arguments = JObj [(''path'', JStr ''/etc/hosts'')] \<rparr>"

section \<open>Properties\<close>

subsection \<open>Association lists\<close>

lemma map_of_fold_update:
  "map_of (fold (\<lambda>(k, v). AList.update k v) src dst) = map_of dst ++ map_of (rev src)"
  by (induction src arbitrary: dst)
     (auto simp: update_conv' map_add_def fun_eq_iff split: option.splits)

lemma map_of_rev_distinct: "distinct (map fst xs) \<Longrightarrow> map_of (rev xs) = map_of xs"
  by (rule ext) (metis distinct_rev map_of_eq_Some_iff not_Some_eq rev_map set_rev)

lemma map_of_spread:
  "distinct (map fst src) \<Longrightarrow> map_of (spread dst src) = map_of dst ++ map_of src"
  by (simp add: spread_def map_of_fold_update map_of_rev_distinct)

subsection \<open>The environment of a child process\<close>

text \<open>
  C8, as the code has it. The environment of the child is the environment of the host
  overlaid with the configured variables, the configured value winning, for every key
  other than \<open>PATH\<close>, \<open>SHELL\<close>, \<open>HOME\<close> and \<open>USER\<close>. These four are written after the
  configured variables: each is the host's value if the host has a non-empty one and
  the platform default otherwise, whatever the provider configures for it. Both
  environments are objects, so their keys are distinct.
\<close>

theorem mergedEnv_lookup:
  assumes "distinct (map fst (process_env h))" and "distinct (map fst (server_env server))"
  shows "map_of (mergedEnv h server) k =
     (if k = ''USER'' then Some (or_else (map_of (process_env h) ''USER'') (username h))
      else if k = ''HOME'' then Some (or_else (map_of (process_env h) ''HOME'') (homedir h))
      else if k = ''SHELL'' then Some (or_else (map_of (process_env h) ''SHELL'') ''/bin/zsh'')
      else if k = ''PATH'' then Some (or_else (map_of (process_env h) ''PATH'')
                                       ''/usr/local/bin:/usr/bin:/bin:/usr/sbin:/sbin'')
      else (case map_of (server_env server) k of
              Some v \<Rightarrow> Some v
            | None \<Rightarrow> map_of (process_env h) k))"
  using assms
  by (simp add: mergedEnv_def update_conv' map_of_spread map_add_def)

theorem mergedEnv_lookup_witness:
  "distinct (map fst (process_env example_host)) \<and> distinct (map fst (server_env fs_server))
   \<and> map_of (mergedEnv example_host fs_server) ''API_KEY'' = Some ''k''
   \<and> map_of (mergedEnv example_host fs_server) ''LANG'' = Some ''C''
   \<and> map_of (mergedEnv example_host fs_server) ''SHELL'' = Some ''/bin/zsh''"
proof -
  have d1: "distinct (map fst (process_env example_host))"
    by (simp add: example_host_def)
  have d2: "distinct (map fst (server_env fs_server))"
    by (simp add: server_env_def fs_server_def)
  show ?thesis
    using d1 d2 mergedEnv_lookup [OF d1 d2, of "''API_KEY''"]
      mergedEnv_lookup [OF d1 d2, of "''LANG''"] mergedEnv_lookup [OF d1 d2, of "''SHELL''"]
    by (simp add: example_host_def server_env_def fs_server_def or_else_def)
qed

text \<open>
  C8 as stated fails: \<open>fs\<close> configures \<open>PATH\<close>, the host has a \<open>PATH\<close> of its own, and the
  child gets the host's.
\<close>

theorem configured_PATH_counterexample:
  "map_of (server_env fs_server) ''PATH'' = Some ''/opt/tools/bin''
   \<and> map_of (mergedEnv example_host fs_server) ''PATH'' = Some ''/usr/bin''"
  by (simp add: mergedEnv_def server_env_def fs_server_def example_host_def or_else_def
      update_conv')

subsection \<open>Concrete states are reachable\<close>




subsection \<open>\<open>executeTool\<close> on a provider that is not connected or lacks the tool\<close>

text \<open>
  C5. \<open>executeTool\<close> on a provider that is unknown or whose status is not \<open>connected\<close>
  fails with \<open>Server \<dots> is not connected\<close>, and on a connected provider whose tool list
  lacks the named tool with \<open>Tool \<dots> not found\<close>. In both cases the state it returns is
  the state it was given: nothing is written to a transport and no call is registered.
\<close>

theorem executeTool_refuses:
  "(servers_get st serverId = None \<or> (\<exists>server. servers_get st serverId = Some server \<and> s_status server \<noteq> Connected)
      \<longrightarrow> executeTool serverId toolCall st = (Inl (ServerNotConnected serverId), st))
   \<and> (\<forall>server. servers_get st serverId = Some server \<and> s_status server = Connected
         \<and> find (\<lambda>t. t_name t = Some (JStr (tc_name toolCall))) (s_tools server) = None
      \<longrightarrow> executeTool serverId toolCall st = (Inl (ToolNotFound (tc_name toolCall) serverId), st))"
  by (auto simp: executeTool_def)

theorem executeTool_refuses_witness:
  "servers_get example_state ''filesystem'' = Some (exampleServers ! 0)
   \<and> s_status (exampleServers ! 0) \<noteq> Connected
   \<and> executeTool ''filesystem'' \<lparr> tc_id = ''1'', tc_name = ''read_file'', tc_arguments = JObj [] \<rparr> example_state
       = (Inl (ServerNotConnected ''filesystem''), example_state)
   \<and> servers_get fs_connected ''fs'' = Some (fs_server\<lparr> s_status := Connected \<rparr>)
   \<and> find (\<lambda>t. t_name t = Some (JStr ''read_file'')) (s_tools (fs_server\<lparr> s_status := Connected \<rparr>)) = None
   \<and> executeTool ''fs'' \<lparr> tc_id = ''2'', tc_name = ''read_file'', tc_arguments = JObj [] \<rparr> fs_connected
       = (Inl (ToolNotFound ''read_file'' ''fs''), fs_connected)"
proof -
  have a: "servers_get example_state ''filesystem'' = Some (exampleServers ! 0)"
    by (simp add: example_state_def initializeExampleServers_def exampleServers_def
        servers_set_def empty_state_def servers_get_def)
  have b: "s_status (exampleServers ! 0) \<noteq> Connected"
    by (simp add: exampleServers_def)
  have c: "servers_get fs_connected ''fs'' = Some (fs_server\<lparr> s_status := Connected \<rparr>)"
    by (simp add: fs_connected_def servers_get_def)
  have d: "find (\<lambda>t. t_name t = Some (JStr ''read_file'')) (s_tools (fs_server\<lparr> s_status := Connected \<rparr>)) = None"
    by (simp add: fs_server_def placeholder_tool_def)
  show ?thesis
    using a b c d
      executeTool_refuses [of example_state "''filesystem''"
        "\<lparr> tc_id = ''1'', tc_name = ''read_file'', tc_arguments = JObj [] \<rparr>"]
      executeTool_refuses [of fs_connected "''fs''"
        "\<lparr> tc_id = ''2'', tc_name = ''read_file'', tc_arguments = JObj [] \<rparr>"]
    by simp
qed

subsection \<open>Providers without a command\<close>

text \<open>
  C10, as the code has it. For a stdio provider without a command (as the built-in
  example providers are) under whose id no connection is registered, \<open>connectToServer\<close>
  returns \<open>true\<close> at once and only sets the status to \<open>connected\<close>: no process is created
  and no connection registered. \<open>executeTool\<close> for one of its tools then passes the
  status and the tool check and fails in \<open>sendMessage\<close> with \<open>No connection found\<close>.
\<close>

theorem demo_server_has_no_connection:
  assumes "map_of (servers st) serverId = Some r" and "r < length (objs st)"
    and "s_transport (objs st ! r) = ''stdio''"
    and "or_else (s_command (objs st ! r)) [] = []"
    and "map_of (connections st) serverId = None"
    and "find (\<lambda>t. t_name t = Some (JStr (tc_name toolCall))) (s_tools (objs st ! r)) \<noteq> None"
  shows "connectToServer h serverId st = (Returned True, set_status r Connected st)
     \<and> servers_get (set_status r Connected st) serverId = Some ((objs st ! r)\<lparr> s_status := Connected \<rparr>)
     \<and> handles (set_status r Connected st) = handles st
     \<and> connections (set_status r Connected st) = connections st
     \<and> executeTool serverId toolCall (set_status r Connected st)
         = (Inl (NoConnection serverId), set_status r Connected st)"
  using assms
  by (auto simp: connectToServer_def connectStdioServer_def set_status_def servers_get_def
      executeTool_def sendMessage_def Let_def)

theorem demo_server_has_no_connection_witness:
  "map_of (servers example_state) ''filesystem'' = Some 0 \<and> 0 < length (objs example_state)
   \<and> s_transport (objs example_state ! 0) = ''stdio''
   \<and> or_else (s_command (objs example_state ! 0)) [] = []
   \<and> map_of (connections example_state) ''filesystem'' = None
   \<and> find (\<lambda>t. t_name t = Some (JStr ''read_file'')) (s_tools (objs example_state ! 0)) \<noteq> None
   \<and> connectToServer example_host ''filesystem'' example_state
        = (Returned True, set_status 0 Connected example_state)
   \<and> executeTool ''filesystem'' \<lparr> tc_id = ''1'', tc_name = ''read_file'', tc_arguments = JObj [] \<rparr>
          (set_status 0 Connected example_state)
        = (Inl (NoConnection ''filesystem''), set_status 0 Connected example_state)"
proof -
  have e: "example_state = \<lparr> objs = exampleServers, servers = [(''filesystem'', 0), (''web-search'', 1)],
      connections = [], handles = [], calls = [], now = 0, config_file = [] \<rparr>"
    by (simp add: example_state_def initializeExampleServers_def exampleServers_def
        servers_set_def empty_state_def)
  have h1: "map_of (servers example_state) ''filesystem'' = Some 0" by (simp add: e)
  have h2: "0 < length (objs example_state)" by (simp add: e exampleServers_def)
  have h3: "s_transport (objs example_state ! 0) = ''stdio''" by (simp add: e exampleServers_def)
  have h4: "or_else (s_command (objs example_state ! 0)) [] = []"
    by (simp add: e exampleServers_def or_else_def)
  have h5: "map_of (connections example_state) ''filesystem'' = None" by (simp add: e)
  have h6: "find (\<lambda>t. t_name t = Some (JStr (tc_name \<lparr> tc_id = ''1'', tc_name = ''read_file'', tc_arguments = JObj [] \<rparr>)))
              (s_tools (objs example_state ! 0)) \<noteq> None"
    by (simp add: e exampleServers_def)
  show ?thesis
    using h1 h2 h3 h4 h5 h6
      demo_server_has_no_connection [OF h1 h2 h3 h4 h5 h6, of example_host]
    by simp
qed

lemma example_state_eq:
  "example_state = \<lparr> objs = exampleServers, servers = [(''filesystem'', 0), (''web-search'', 1)],
      connections = [], handles = [], calls = [], now = 0, config_file = [] \<rparr>"
  by (simp add: example_state_def initializeExampleServers_def exampleServers_def
      servers_set_def empty_state_def)

lemma exampleServers_ids:
  "length exampleServers = 2" "s_id (exampleServers ! 0) = ''filesystem''"
  "s_id (exampleServers ! Suc 0) = ''web-search''"
  by (simp_all add: exampleServers_def)

lemma fold_servers_set_examples:
  "fold servers_set exampleServers st =
     st\<lparr> objs := objs st @ exampleServers,
         servers := AList.update ''web-search'' (Suc (length (objs st)))
                      (AList.update ''filesystem'' (length (objs st)) (servers st)) \<rparr>"
  by (simp add: servers_set_def exampleServers_def)

lemma filesystem_loaded:
  "updateConfig reload_host filesystem_document example_state
   = (Inr (), \<lparr> objs = exampleServers @ [fs_mcp_server],
               servers = [(''filesystem'', 2), (''web-search'', 1)],
               connections = [], handles = [], calls = [], now = 0,
               config_file = filesystem_document \<rparr>)"
  by (simp add: updateConfig_def reload_host_def example_host_def loadServersFromConfig_def
      parse_entries_def List.map_filter_def install_def servers_set_def example_state_eq
      parseServerConfig_def no_config_def or_else_def Let_def fs_mcp_server_def
      filesystem_document_def exampleServers_ids)

lemma filesystem_connected:
  "run reload_host [ConnectToServer ''filesystem'', Spawn 0]
     \<lparr> objs = exampleServers @ [fs_mcp_server],
       servers = [(''filesystem'', 2), (''web-search'', 1)],
       connections = [], handles = [], calls = [], now = 0,
       config_file = filesystem_document \<rparr>
   = \<lparr> objs = exampleServers @ [fs_mcp_server\<lparr> s_status := Connected \<rparr>],
       servers = [(''filesystem'', 2), (''web-search'', 1)],
       connections = [(''filesystem'', 0)], handles = [fs_mcp_child],
       calls = [initialize_call\<lparr> c_serverName := ''filesystem'', c_deadline := timeoutMs,
                                 c_then := Initialize 2 \<rparr>],
       now = 0, config_file = filesystem_document \<rparr>"
  apply (simp add: run_def connectToServer_def connectStdioServer_def nth_append exampleServers_ids
      fs_mcp_server_def or_else_def Let_def)
  apply (simp add: on_spawn_def has_kind_def set_status_def Let_def initializeServerConnection_def
      sendMessage_def resolve_connect_def serverName_of_def servers_get_def nth_append
      list_update_append exampleServers_ids fs_mcp_child_def initialize_call_def fs_mcp_server_def)
  done

lemma reloaded_state_reached:
  "run reload_host [UpdateConfig filesystem_document, ConnectToServer ''filesystem'', Spawn 0,
                    UpdateConfig empty_document] example_state = reloaded_state"
proof -
  have "run reload_host [UpdateConfig filesystem_document, ConnectToServer ''filesystem'', Spawn 0,
                    UpdateConfig empty_document] example_state
      = snd (updateConfig reload_host empty_document
          (run reload_host [ConnectToServer ''filesystem'', Spawn 0]
             (snd (updateConfig reload_host filesystem_document example_state))))"
    by (simp add: run_def)
  also have "\<dots> = reloaded_state"
    unfolding filesystem_loaded snd_conv filesystem_connected
    by (simp add: updateConfig_def reload_host_def example_host_def loadServersFromConfig_def
        install_def initializeExampleServers_def fold_servers_set_examples exampleServers_ids
        empty_document_def filesystem_document_def reloaded_state_def)
  finally show ?thesis .
qed

text \<open>
  C10 as stated fails: it needs that no connection is registered under the id of the
  provider. After the reload over a live connection the built-in \<open>filesystem\<close> has no
  command and is disconnected; \<open>connectToServer\<close> returns \<open>true\<close> without creating a
  process, and \<open>executeTool\<close> for \<open>read_file\<close> does not fail: \<open>sendMessage\<close> finds the
  connection of the earlier child and writes the \<open>tools/call\<close> request to it.
\<close>

theorem stale_connection_counterexample:
  "map_option s_transport (servers_get reloaded_state ''filesystem'') = Some ''stdio''
   \<and> map_option s_command (servers_get reloaded_state ''filesystem'') = Some None
   \<and> map_option s_status (servers_get reloaded_state ''filesystem'') = Some Disconnected
   \<and> fst (connectToServer reload_host ''filesystem'' reloaded_state) = Returned True
   \<and> handles (snd (connectToServer reload_host ''filesystem'' reloaded_state)) = handles reloaded_state
   \<and> fst (executeTool ''filesystem'' read_file_call
             (snd (connectToServer reload_host ''filesystem'' reloaded_state))) = Inr 1
   \<and> map m_method (k_sent (handles (snd (executeTool ''filesystem'' read_file_call
             (snd (connectToServer reload_host ''filesystem'' reloaded_state)))) ! 0))
       = [''initialize'', ''tools/call'']"
  by (simp add: reloaded_state_def servers_get_def connectToServer_def connectStdioServer_def
      set_status_def executeTool_def sendMessage_def tools_call_def Let_def or_else_def
      nth_append exampleServers_def read_file_call_def fs_mcp_child_def initialize_request_def)

subsection \<open>Connecting twice\<close>

text \<open>
  C2, as the code has it. \<open>connectToServer\<close> does not read the status, and the status
  has no value \<open>connecting\<close>: for a stdio provider with a command every call spawns a
  new child process with the configured command, arguments and merged environment, and
  its promise waits for the \<open>spawn\<close> or \<open>error\<close> event of that process.
\<close>

theorem connect_ignores_status:
  assumes "map_of (servers st) serverId = Some r"
    and "s_transport (objs st ! r) = ''stdio''"
    and "or_else (s_command (objs st ! r)) [] \<noteq> []"
  shows "connectToServer h serverId st =
     (Awaiting (length (handles st)),
      st\<lparr> handles := handles st @
            [\<lparr> k_kind = ChildProcess, k_server = r,
               k_target = or_else (s_command (objs st ! r)) [],
               k_args = (case s_args (objs st ! r) of None \<Rightarrow> [] | Some a \<Rightarrow> a),
               k_env = mergedEnv h (objs st ! r),
               k_stdin = True, k_sent = [], k_killed = False, k_result = None \<rparr>] \<rparr>)"
  using assms by (simp add: connectToServer_def connectStdioServer_def Let_def)

theorem connect_ignores_status_witness:
  "map_of (servers fs_connected) ''fs'' = Some 0
   \<and> s_transport (objs fs_connected ! 0) = ''stdio''
   \<and> or_else (s_command (objs fs_connected ! 0)) [] \<noteq> []
   \<and> s_status (objs fs_connected ! 0) = Connected
   \<and> fst (connectToServer example_host ''fs'' fs_connected) = Awaiting 1"
proof -
  have h1: "map_of (servers fs_connected) ''fs'' = Some 0" by (simp add: fs_connected_def)
  have h2: "s_transport (objs fs_connected ! 0) = ''stdio''" by (simp add: fs_connected_def fs_server_def)
  have h3: "or_else (s_command (objs fs_connected ! 0)) [] \<noteq> []"
    by (simp add: fs_connected_def fs_server_def or_else_def)
  have h4: "s_status (objs fs_connected ! 0) = Connected" by (simp add: fs_connected_def)
  have h5: "length (handles fs_connected) = 1" by (simp add: fs_connected_def)
  show ?thesis
    using h1 h2 h3 h4 h5 connect_ignores_status [OF h1 h2 h3, of example_host] by simp
qed

text \<open>
  C2 as stated fails: \<open>fs\<close> is connected through child 0, and a second
  \<open>connectToServer\<close> creates child 1.
\<close>

theorem reconnect_counterexample:
  "s_status (objs fs_connected ! 0) = Connected
   \<and> length (handles fs_connected) = 1
   \<and> fst (connectToServer example_host ''fs'' fs_connected) = Awaiting 1
   \<and> length (handles (snd (connectToServer example_host ''fs'' fs_connected))) = 2
   \<and> k_kind (handles (snd (connectToServer example_host ''fs'' fs_connected)) ! 1) = ChildProcess
   \<and> k_target (handles (snd (connectToServer example_host ''fs'' fs_connected)) ! 1) = ''echo''"
  by (simp add: connectToServer_def connectStdioServer_def fs_connected_def fs_server_def
      or_else_def Let_def)

subsection \<open>Disconnecting while calls are pending\<close>

text \<open>
  C1, as the code has it. \<open>disconnectServer\<close> kills the transport, removes the
  connection and sets the status; it does not touch the promises of \<open>sendMessage\<close>:
  every call is as it was before, with its outcome, its handler and its timer, and the
  clock has not moved.
\<close>

theorem disconnect_keeps_calls:
  "calls (disconnectServer serverId st) = calls st
   \<and> now (disconnectServer serverId st) = now st
   \<and> map_of (connections (disconnectServer serverId st)) serverId = None"
  by (auto simp: disconnectServer_def set_status_def Let_def delete_conv' split: option.splits)

text \<open>
  C1 as stated fails: the \<open>initialize\<close> request of \<open>fs\<close> is pending when \<open>fs\<close> is
  disconnected, and it is still pending after the disconnect, after the exit of the
  child and 95 seconds later; it is rejected when its timer runs.
\<close>

theorem disconnect_counterexample:
  "map_of (connections fs_connected) ''fs'' = Some 0
   \<and> c_conn (calls fs_connected ! 0) = 0
   \<and> c_outcome (calls fs_connected ! 0) = Pending
   \<and> c_outcome (calls (disconnectServer ''fs'' fs_connected) ! 0) = Pending
   \<and> c_outcome (calls (run example_host [DisconnectServer ''fs'', Exit 0, Clock 100000] fs_connected) ! 0)
       = Pending
   \<and> c_outcome (calls (run example_host [DisconnectServer ''fs'', Exit 0, Clock 125000] fs_connected) ! 0)
       = Rejected (RequestTimeout ''FS'')"
  by (simp add: run_def disconnectServer_def on_exit_def on_clock_def set_status_def Let_def
      after_handlers_def settled_def expire_def timeout_def timeout_error_def settle_def resume_def
      timeoutMs_def
      fs_connected_def initialize_call_def fs_child_def fs_server_def)

subsection \<open>Reloading the configuration\<close>

lemma fold_servers_set_frame:
  "objs (fold servers_set xs st) = objs st @ xs
   \<and> connections (fold servers_set xs st) = connections st
   \<and> handles (fold servers_set xs st) = handles st
   \<and> calls (fold servers_set xs st) = calls st
   \<and> now (fold servers_set xs st) = now st
   \<and> config_file (fold servers_set xs st) = config_file st"
  by (induction xs arbitrary: st) (simp_all add: servers_set_def)

lemma fold_servers_set_absent:
  "serverId \<notin> s_id ` set xs \<Longrightarrow>
   map_of (servers (fold servers_set xs st)) serverId = map_of (servers st) serverId"
  by (induction xs arbitrary: st) (simp_all add: servers_set_def update_conv')

lemma fold_servers_set_present:
  "serverId \<in> s_id ` set xs \<Longrightarrow>
   \<exists>server \<in> set xs. s_id server = serverId
      \<and> servers_get (fold servers_set xs st) serverId = Some server"
proof (induction xs arbitrary: st)
  case Nil
  then show ?case by simp
next
  case (Cons x xs)
  show ?case
  proof (cases "serverId \<in> s_id ` set xs")
    case True
    from Cons.IH [OF True, of "servers_set x st"] show ?thesis by auto
  next
    case False
    with Cons.prems have x: "s_id x = serverId" by auto
    have "map_of (servers (fold servers_set xs (servers_set x st))) serverId
            = map_of (servers (servers_set x st)) serverId"
      using False by (rule fold_servers_set_absent)
    also have "\<dots> = Some (length (objs st))"
      using x by (simp add: servers_set_def update_conv')
    finally have "servers_get (fold servers_set (x # xs) st) serverId = Some x"
      using fold_servers_set_frame [of xs "servers_set x st"]
      by (simp add: servers_get_def servers_set_def nth_append)
    with x show ?thesis by auto
  qed
qed

lemma install_fold: "install parsed st = fold servers_set (installed parsed) st"
  by (simp add: install_def installed_def initializeExampleServers_def)

lemma parseServerConfig_status:
  "parseServerConfig ident config = Some server \<Longrightarrow> s_status server = Disconnected \<and> s_id server = ident"
  by (auto simp: parseServerConfig_def Let_def split: option.splits if_splits)

lemma parse_entries_status: "server \<in> set (parse_entries es) \<Longrightarrow> s_status server = Disconnected"
  by (auto simp: parse_entries_def List.map_filter_def dest: parseServerConfig_status)

lemma parse_array_status:
  "parse_array i cs = Some parsed \<Longrightarrow> server \<in> set parsed \<Longrightarrow> s_status server = Disconnected"
  by (induction i cs arbitrary: parsed rule: parse_array.induct)
     (auto split: option.splits dest: parseServerConfig_status)

lemma parsed_servers_status:
  "parsed_servers config = Inr parsed \<Longrightarrow> server \<in> set parsed \<Longrightarrow> s_status server = Disconnected"
  by (cases config) (auto split: option.splits dest: parse_entries_status parse_array_status)

lemma installed_status:
  "parsed_servers config = Inr parsed \<Longrightarrow> server \<in> set (installed parsed) \<Longrightarrow> s_status server = Disconnected"
  by (auto simp: installed_def exampleServers_def dest: parsed_servers_status split: if_splits)

text \<open>
  C7, as the code has it. An \<open>updateConfig\<close> that succeeds parses the document and
  puts one record for every provider it derives (the built-in example providers if it
  derives none) into the table under the provider's id, with the loader's status
  \<open>disconnected\<close>; \<open>loadServersFromConfig\<close> only calls \<open>servers.set\<close>, so the entry of
  every other provider stays in the table as it was. The server objects that existed
  before, the connections, the transports and the calls are untouched: no provider is
  disconnected.
\<close>

theorem updateConfig_merges:
  assumes "updateConfig h configContent st = (Inr (), st')"
  shows "\<exists>config parsed.
     JSON_parse_config h configContent = Some config \<and> parsed_servers config = Inr parsed
     \<and> (\<forall>serverId. serverId \<notin> s_id ` set (installed parsed) \<longrightarrow>
            map_of (servers st') serverId = map_of (servers st) serverId)
     \<and> (\<forall>serverId \<in> s_id ` set (installed parsed).
            \<exists>server \<in> set (installed parsed). s_id server = serverId
               \<and> s_status server = Disconnected \<and> servers_get st' serverId = Some server)
     \<and> (\<forall>r < length (objs st). objs st' ! r = objs st ! r)
     \<and> connections st' = connections st \<and> handles st' = handles st \<and> calls st' = calls st"
proof -
  from assms obtain config parsed where
    c: "JSON_parse_config h configContent = Some config"
    and p: "parsed_servers config = Inr parsed"
    and st': "st' = install parsed (st\<lparr> config_file := configContent \<rparr>)"
    by (auto simp: updateConfig_def loadServersFromConfig_def Let_def
        split: option.splits if_splits sum.splits)
  let ?st1 = "st\<lparr> config_file := configContent \<rparr>"
  have eq: "st' = fold servers_set (installed parsed) ?st1"
    by (simp add: st' install_fold)
  have absent: "\<forall>serverId. serverId \<notin> s_id ` set (installed parsed) \<longrightarrow>
      map_of (servers st') serverId = map_of (servers st) serverId"
    by (simp add: eq fold_servers_set_absent)
  have present: "\<forall>serverId \<in> s_id ` set (installed parsed).
      \<exists>server \<in> set (installed parsed). s_id server = serverId
         \<and> s_status server = Disconnected \<and> servers_get st' serverId = Some server"
  proof
    fix serverId assume "serverId \<in> s_id ` set (installed parsed)"
    from fold_servers_set_present [OF this, of ?st1]
    obtain server where "server \<in> set (installed parsed)" "s_id server = serverId"
      "servers_get st' serverId = Some server"
      by (auto simp: eq)
    with installed_status [OF p] show "\<exists>server \<in> set (installed parsed). s_id server = serverId
         \<and> s_status server = Disconnected \<and> servers_get st' serverId = Some server"
      by blast
  qed
  have frame: "(\<forall>r < length (objs st). objs st' ! r = objs st ! r)
     \<and> connections st' = connections st \<and> handles st' = handles st \<and> calls st' = calls st"
    using fold_servers_set_frame [of "installed parsed" ?st1] by (simp add: eq nth_append)
  from c p absent present frame show ?thesis by blast
qed

lemma git_loaded:
  "updateConfig example_host git_document fs_connected
   = (Inr (), fs_connected\<lparr> objs := objs fs_connected @
         [\<lparr> s_id = ''git'', s_name = ''git'', s_url = ''stdio://git'', s_transport = ''stdio'',
            s_command = Some ''git-mcp'', s_args = Some [], s_env = Some [],
            s_status = Disconnected, s_tools = [placeholder_tool ''git'' ''git''],
            s_resources = JArr [], s_disabled = Some False \<rparr>],
        servers := [(''fs'', 0), (''git'', 1)], config_file := git_document \<rparr>)"
  by (simp add: updateConfig_def example_host_def loadServersFromConfig_def parse_entries_def
      List.map_filter_def install_def servers_set_def fs_connected_def
      parseServerConfig_def no_config_def or_else_def Let_def
      fs_document_def git_document_def)

theorem updateConfig_merges_witness:
  "updateConfig example_host git_document fs_connected
     = (Inr (), snd (updateConfig example_host git_document fs_connected))
   \<and> connections (snd (updateConfig example_host git_document fs_connected)) = connections fs_connected
   \<and> calls (snd (updateConfig example_host git_document fs_connected)) = calls fs_connected"
proof -
  have a: "updateConfig example_host git_document fs_connected
     = (Inr (), snd (updateConfig example_host git_document fs_connected))"
    by (simp add: git_loaded)
  show ?thesis using a updateConfig_merges [OF a] by blast
qed

text \<open>
  C7 as stated fails twice. With \<open>fs\<close> connected, a new document that declares only
  \<open>git\<close> leaves \<open>fs\<close> in the list of servers; and a new document that still declares
  \<open>fs\<close> replaces its record by a fresh one whose status is \<open>disconnected\<close>, although the
  connection of \<open>fs\<close> is still registered.
\<close>

theorem updateConfig_counterexample:
  "map s_id (getAvailableServers fs_connected) = [''fs'']
   \<and> fst (updateConfig example_host git_document fs_connected) = Inr ()
   \<and> map s_id (getAvailableServers (snd (updateConfig example_host git_document fs_connected)))
       = [''fs'', ''git'']
   \<and> map_option s_status (servers_get fs_connected ''fs'') = Some Connected
   \<and> fst (updateConfig example_host fs_git_document fs_connected) = Inr ()
   \<and> map_option s_status (servers_get (snd (updateConfig example_host fs_git_document fs_connected)) ''fs'')
       = Some Disconnected
   \<and> map_of (connections (snd (updateConfig example_host fs_git_document fs_connected))) ''fs'' = Some 0"
  by (simp add: updateConfig_def example_host_def loadServersFromConfig_def parse_entries_def
      List.map_filter_def install_def servers_set_def fs_connected_def servers_get_def
      getAvailableServers_def
      parseServerConfig_def no_config_def or_else_def Let_def
      fs_document_def git_document_def fs_git_document_def fs_server_def)

subsection \<open>What the methods and events leave alone\<close>

lemma set_status_frame:
  "length (objs (set_status r s st)) = length (objs st)
   \<and> s_tools (objs (set_status r s st) ! q) = s_tools (objs st ! q)
   \<and> calls (set_status r s st) = calls st \<and> now (set_status r s st) = now st"
  by (cases "q = r"; cases "r < length (objs st)") (simp_all add: set_status_def list_update_beyond)

lemma sendMessage_frame:
  "objs (snd (sendMessage serverId msg k st)) = objs st
   \<and> now (snd (sendMessage serverId msg k st)) = now st
   \<and> (\<exists>extra. calls (snd (sendMessage serverId msg k st)) = calls st @ extra)"
  by (auto simp: sendMessage_def Let_def split: option.splits)

lemma sendNotification_frame:
  "objs (sendNotification serverId msg st) = objs st
   \<and> now (sendNotification serverId msg st) = now st
   \<and> calls (sendNotification serverId msg st) = calls st"
  by (auto simp: sendNotification_def Let_def split: option.splits)

lemma after_initialize_frame:
  "objs (after_initialize r st) = objs st \<and> now (after_initialize r st) = now st
   \<and> (\<exists>extra. calls (after_initialize r st) = calls st @ extra)"
  using sendMessage_frame sendNotification_frame
  by (simp add: after_initialize_def Let_def) metis

lemma request_resources_frame:
  "objs (request_resources r st) = objs st \<and> now (request_resources r st) = now st
   \<and> (\<exists>extra. calls (request_resources r st) = calls st @ extra)"
  using sendMessage_frame by (simp add: request_resources_def)

lemma after_tools_list_frame:
  "length (objs (after_tools_list h response r st)) = length (objs st)
   \<and> now (after_tools_list h response r st) = now st
   \<and> (\<exists>extra. calls (after_tools_list h response r st) = calls st @ extra)"
proof -
  have *: "\<And>st'. length (objs st') = length (objs st) \<Longrightarrow> now st' = now st \<Longrightarrow> calls st' = calls st
    \<Longrightarrow> length (objs (request_resources r st')) = length (objs st)
      \<and> now (request_resources r st') = now st
      \<and> (\<exists>extra. calls (request_resources r st') = calls st @ extra)"
    using request_resources_frame by metis
  show ?thesis
    by (auto simp: after_tools_list_def Let_def * split: option.splits json.splits)
qed

lemma those_discovered_tool:
  "those (map (discovered_tool h serverName) ts) \<noteq> None \<longleftrightarrow> JNull \<notin> set ts"
  by (induction ts) (auto simp: discovered_tool_def split: option.splits)

lemma after_tools_list_tools:
  assumes "s_tools (objs (after_tools_list h response r st) ! q) \<noteq> s_tools (objs st ! q)"
  shows "q = r \<and> tools_of response \<noteq> None"
proof -
  let ?tools = "and_prop (get_prop response ''result'') ''tools''"
  have keep: "s_tools (objs (request_resources r st') ! q) = s_tools (objs st' ! q)" for st'
    using request_resources_frame [of r st'] by simp
  show ?thesis
  proof (cases "?tools")
    case None
    with assms keep show ?thesis by (simp add: after_tools_list_def Let_def)
  next
    case (Some v)
    show ?thesis
    proof (cases v)
      case (JArr ts)
      show ?thesis
      proof (cases "those (map (discovered_tool h (s_name (objs st ! r))) ts)")
        case None
        with assms Some JArr show ?thesis by (simp add: after_tools_list_def Let_def)
      next
        case (Some discovered)
        then have "JNull \<notin> set ts"
          using those_discovered_tool [of h "s_name (objs st ! r)" ts] by simp
        with \<open>?tools = Some v\<close> JArr have t: "tools_of response \<noteq> None"
          by (simp add: tools_of_def)
        have "q = r"
        proof (rule ccontr)
          assume "q \<noteq> r"
          with assms \<open>?tools = Some v\<close> JArr Some keep show False
            by (simp add: after_tools_list_def Let_def)
        qed
        with t show ?thesis by simp
      qed
    qed (use assms Some keep in \<open>auto simp: after_tools_list_def Let_def split: if_splits\<close>)
  qed
qed

lemma after_resources_list_frame:
  "length (objs (after_resources_list response r st)) = length (objs st)
   \<and> s_tools (objs (after_resources_list response r st) ! q) = s_tools (objs st ! q)
   \<and> now (after_resources_list response r st) = now st
   \<and> calls (after_resources_list response r st) = calls st"
  by (cases "q = r"; cases "r < length (objs st)")
     (auto simp: after_resources_list_def Let_def list_update_beyond split: option.splits)

lemma resume_frame:
  "length (objs (resume h c st)) = length (objs st) \<and> now (resume h c st) = now st
   \<and> (\<exists>extra. calls (resume h c st) = calls st @ extra)"
  using after_initialize_frame after_tools_list_frame after_resources_list_frame
  by (auto simp: resume_def split: outcome.splits continuation.splits)

lemma resume_tools:
  assumes "s_tools (objs (resume h c st) ! q) \<noteq> s_tools (objs st ! q)"
  shows "discovery_for q c"
proof (cases "c_outcome c")
  case (Resolved response)
  show ?thesis
  proof (cases "c_then c")
    case (ToolsList r)
    with Resolved assms after_tools_list_tools [of h response r st q] show ?thesis
      by (simp add: resume_def discovery_for_def)
  next
    case ToolCall
    with Resolved assms show ?thesis by (simp add: resume_def)
  next
    case (Initialize r)
    with Resolved assms after_initialize_frame [of r st] show ?thesis by (simp add: resume_def)
  next
    case (ResourcesList r)
    with Resolved assms after_resources_list_frame [of response r st q] show ?thesis
      by (simp add: resume_def)
  qed
qed (use assms in \<open>simp_all add: resume_def\<close>)

lemma fold_resume_frame:
  "length (objs (fold (resume h) cs st)) = length (objs st)
   \<and> now (fold (resume h) cs st) = now st
   \<and> (\<exists>extra. calls (fold (resume h) cs st) = calls st @ extra)"
proof (induction cs arbitrary: st)
  case Nil
  then show ?case by simp
next
  case (Cons c cs)
  from resume_frame [of h c st] obtain e1 where
    a: "length (objs (resume h c st)) = length (objs st)" "now (resume h c st) = now st"
      "calls (resume h c st) = calls st @ e1" by blast
  from Cons.IH [of "resume h c st"] obtain e2 where
    b: "length (objs (fold (resume h) cs (resume h c st))) = length (objs (resume h c st))"
      "now (fold (resume h) cs (resume h c st)) = now (resume h c st)"
      "calls (fold (resume h) cs (resume h c st)) = calls (resume h c st) @ e2" by blast
  from a b show ?case by simp
qed

lemma fold_resume_tools:
  "s_tools (objs (fold (resume h) cs st) ! q) \<noteq> s_tools (objs st ! q)
   \<Longrightarrow> \<exists>c \<in> set cs. discovery_for q c"
proof (induction cs arbitrary: st)
  case Nil
  then show ?case by simp
next
  case (Cons c cs)
  show ?case
  proof (cases "s_tools (objs (resume h c st) ! q) = s_tools (objs st ! q)")
    case True
    with Cons.prems have "s_tools (objs (fold (resume h) cs (resume h c st)) ! q)
        \<noteq> s_tools (objs (resume h c st) ! q)" by simp
    from Cons.IH [OF this] show ?thesis by auto
  next
    case False
    then show ?thesis using resume_tools by auto
  qed
qed

lemma settled_subset: "set (settled old new) \<subseteq> set new"
  by (auto simp: settled_def dest: set_zip_rightD)

lemma after_handlers_frame:
  "length (objs (after_handlers h new st)) = length (objs st)
   \<and> now (after_handlers h new st) = now st
   \<and> (\<exists>extra. calls (after_handlers h new st) = new @ extra)"
  using fold_resume_frame [of h "settled (calls st) new" "st\<lparr> calls := new \<rparr>"]
  by (simp add: after_handlers_def)

lemma after_handlers_tools:
  assumes "s_tools (objs (after_handlers h new st) ! q) \<noteq> s_tools (objs st ! q)"
  shows "\<exists>c \<in> set (calls (after_handlers h new st)). discovery_for q c"
proof -
  from assms have "s_tools (objs (fold (resume h) (settled (calls st) new) (st\<lparr> calls := new \<rparr>)) ! q)
      \<noteq> s_tools (objs (st\<lparr> calls := new \<rparr>) ! q)"
    by (simp add: after_handlers_def)
  from fold_resume_tools [OF this] obtain c where "c \<in> set new" "discovery_for q c"
    using settled_subset by blast
  moreover from after_handlers_frame [of h new st] obtain extra where
    "calls (after_handlers h new st) = new @ extra" by blast
  ultimately show ?thesis by auto
qed

lemma quiet_refl: "quiet st st"
  by (simp add: quiet_def)

lemma quiet_trans: "quiet st st1 \<Longrightarrow> quiet st1 st2 \<Longrightarrow> quiet st st2"
  by (auto simp: quiet_def)

lemma quiet_set_status: "quiet st (set_status r s st)"
  using set_status_frame [of r s st] by (simp add: quiet_def)

lemma quiet_sendMessage: "quiet st (snd (sendMessage serverId msg k st))"
  using sendMessage_frame [of serverId msg k st] by (simp add: quiet_def)

lemma quiet_handles: "quiet st (st\<lparr> handles := hs \<rparr>)"
  by (simp add: quiet_def)

lemma quiet_connections: "quiet st (st\<lparr> connections := cs \<rparr>)"
  by (simp add: quiet_def)

lemma quiet_connectToServer: "quiet st (snd (connectToServer h serverId st))"
  by (auto simp: connectToServer_def connectStdioServer_def connectWebSocketServer_def
      connectSSEServer_def Let_def quiet_set_status quiet_refl quiet_handles split: option.splits)

lemma quiet_disconnectServer: "quiet st (disconnectServer serverId st)"
proof -
  have "quiet st (st\<lparr> handles := hs, connections := cs \<rparr>)" for hs cs
    by (simp add: quiet_def)
  then show ?thesis
    by (auto simp: disconnectServer_def Let_def quiet_refl quiet_set_status
        intro: quiet_trans [OF _ quiet_set_status] split: option.splits)
qed

lemma quiet_executeTool: "quiet st (snd (executeTool serverId toolCall st))"
  by (auto simp: executeTool_def quiet_refl quiet_sendMessage split: option.splits)

lemma quiet_fold_servers_set: "quiet st (fold servers_set xs st)"
  using fold_servers_set_frame [of xs st] by (simp add: quiet_def nth_append)

lemma quiet_updateConfig: "quiet st (snd (updateConfig h configContent st))"
proof -
  have a: "quiet st (st\<lparr> config_file := x \<rparr>)" for x
    by (simp add: quiet_def)
  have "quiet st (install parsed (st\<lparr> config_file := x \<rparr>))" for parsed x
    unfolding install_fold by (rule quiet_trans [OF a quiet_fold_servers_set])
  with a show ?thesis
    by (auto simp: updateConfig_def loadServersFromConfig_def Let_def quiet_refl
        split: option.splits sum.splits)
qed

lemma quiet_resolve_connect: "quiet st (resolve_connect p b st)"
  by (simp add: resolve_connect_def quiet_handles)

lemma quiet_on_spawn: "quiet st (on_spawn p st)"
proof (cases "has_kind st p ChildProcess")
  case True
  let ?r = "k_server (handles st ! p)"
  let ?st1 = "set_status ?r Connected st"
  let ?st2 = "?st1\<lparr> connections := AList.update (s_id (objs ?st1 ! ?r)) p (connections ?st1) \<rparr>"
  have "quiet st ?st2"
    by (rule quiet_trans [OF quiet_set_status quiet_connections])
  then have "quiet st (initializeServerConnection ?r ?st2)"
    unfolding initializeServerConnection_def by (rule quiet_trans [OF _ quiet_sendMessage])
  then have "quiet st (resolve_connect p True (initializeServerConnection ?r ?st2))"
    by (rule quiet_trans [OF _ quiet_resolve_connect])
  with True show ?thesis by (simp add: on_spawn_def Let_def)
qed (simp add: on_spawn_def quiet_refl)

lemma quiet_on_error: "quiet st (on_error p st)"
  by (auto simp: on_error_def quiet_refl intro: quiet_trans [OF quiet_set_status quiet_resolve_connect])

lemma quiet_on_exit: "quiet st (on_exit p st)"
  by (auto simp: on_exit_def Let_def quiet_refl intro: quiet_trans [OF quiet_set_status quiet_connections])

lemma quiet_on_open: "quiet st (on_open p st)"
proof (cases "has_kind st p WebSocket")
  case True
  let ?r = "k_server (handles st ! p)"
  let ?st1 = "set_status ?r Connected st"
  let ?st2 = "?st1\<lparr> connections := AList.update (s_id (objs ?st1 ! ?r)) p (connections ?st1) \<rparr>"
  have "quiet st ?st2"
    by (rule quiet_trans [OF quiet_set_status quiet_connections])
  then have "quiet st (resolve_connect p True ?st2)"
    by (rule quiet_trans [OF _ quiet_resolve_connect])
  with True show ?thesis by (simp add: on_open_def Let_def)
qed (simp add: on_open_def quiet_refl)

lemma handled_after_handlers: "handled f st (after_handlers h (map f (calls st)) st)"
  using after_handlers_frame [of h "map f (calls st)" st] after_handlers_tools [of h "map f (calls st)" st]
  by (auto simp: handled_def)

lemma step_cases:
  "(quiet st (step h a st))
   \<or> (now (step h a st) = now st \<and> (\<exists>p chunk. handled (deliver h p chunk) st (step h a st)))
   \<or> (\<exists>t. now st \<le> t \<and> now (step h a st) = t \<and> handled (expire t) st (step h a st))"
proof (cases a)
  case (Data p data)
  show ?thesis
  proof (cases "has_kind st p ChildProcess")
    case True
    with Data have "step h a st = after_handlers h (map (deliver h p (toString data)) (calls st)) st"
      by (simp add: on_data_def)
    then show ?thesis
      using handled_after_handlers [of "deliver h p (toString data)" st h] after_handlers_frame
      by auto
  next
    case False
    with Data show ?thesis by (simp add: on_data_def quiet_refl)
  qed
next
  case (SocketMessage p data)
  show ?thesis
  proof (cases "has_kind st p WebSocket")
    case True
    with SocketMessage have "step h a st = after_handlers h (map (deliver h p data) (calls st)) st"
      by (simp add: on_message_def)
    then show ?thesis
      using handled_after_handlers [of "deliver h p data" st h] after_handlers_frame
      by auto
  next
    case False
    with SocketMessage show ?thesis by (simp add: on_message_def quiet_refl)
  qed
next
  case (Clock t)
  show ?thesis
  proof (cases "t < now st")
    case True
    with Clock show ?thesis by (simp add: on_clock_def quiet_refl)
  next
    case False
    let ?st1 = "st\<lparr> now := t \<rparr>"
    from False Clock have eq: "step h a st = after_handlers h (map (expire t) (calls ?st1)) ?st1"
      by (simp add: on_clock_def)
    have "handled (expire t) ?st1 (step h a st)"
      unfolding eq by (rule handled_after_handlers)
    then have "handled (expire t) st (step h a st)"
      by (simp add: handled_def)
    moreover have "now (step h a st) = t"
      unfolding eq using after_handlers_frame [of h "map (expire t) (calls ?st1)" ?st1] by simp
    ultimately show ?thesis using False by auto
  qed
qed (simp_all add: quiet_connectToServer quiet_disconnectServer quiet_executeTool quiet_updateConfig
      quiet_on_spawn quiet_on_error quiet_on_exit quiet_on_open)

subsection \<open>The life of a call\<close>

lemma step_calls:
  assumes "i < length (calls st)"
  shows "i < length (calls (step h a st))
     \<and> call_step h (now st) (now (step h a st)) (calls st ! i) (calls (step h a st) ! i)"
proof -
  consider (quiet) "quiet st (step h a st)"
    | (deliver) p chunk where "now (step h a st) = now st" "handled (deliver h p chunk) st (step h a st)"
    | (expire) t where "now st \<le> t" "now (step h a st) = t" "handled (expire t) st (step h a st)"
    using step_cases [of st h a] by blast
  then show ?thesis
  proof cases
    case quiet
    then obtain extra where "now (step h a st) = now st" "calls (step h a st) = calls st @ extra"
      by (auto simp: quiet_def)
    with assms show ?thesis by (simp add: call_step_def nth_append)
  next
    case deliver
    then obtain extra where "calls (step h a st) = map (deliver h p chunk) (calls st) @ extra"
      by (auto simp: handled_def)
    with assms deliver(1) show ?thesis by (auto simp: call_step_def nth_append)
  next
    case expire
    then obtain extra where "calls (step h a st) = map (expire t) (calls st) @ extra"
      by (auto simp: handled_def)
    with assms expire(1,2) show ?thesis by (auto simp: call_step_def nth_append)
  qed
qed

lemma process_lines_match:
  "process_lines parse mid ls n parsed = (Some response, n', parsed')
   \<Longrightarrow> same_id (get_prop response ''id'') mid"
  by (induction ls arbitrary: n parsed)
     (auto simp: Let_def split: if_splits option.splits json.splits)

lemma settle_same: "same_request c (settle out c)"
  by (simp add: settle_def same_request_def)

lemma responseHandler_inv:
  assumes "call_inv t c" and "c_listening c"
  shows "call_inv t (responseHandler parse chunk c) \<and> same_request c (responseHandler parse chunk c)"
proof -
  obtain m n parsed where p:
    "process_lines parse (m_id (c_message c)) (butlast (split_lines (c_buffer c @ chunk))) 0 (c_parsed c)
       = (m, n, parsed)"
    by (cases "process_lines parse (m_id (c_message c)) (butlast (split_lines (c_buffer c @ chunk))) 0 (c_parsed c)")
  show ?thesis
  proof (cases m)
    case None
    with p assms show ?thesis
      by (auto simp: responseHandler_def Let_def call_inv_def same_request_def)
  next
    case (Some response)
    with p have "same_id (get_prop response ''id'') (m_id (c_message c))"
      using process_lines_match by blast
    with Some p assms show ?thesis
      by (simp add: responseHandler_def Let_def call_inv_def same_request_def settle_def)
  qed
qed

lemma wsResponseHandler_inv:
  assumes "call_inv t c" and "c_listening c"
  shows "call_inv t (wsResponseHandler parse chunk c) \<and> same_request c (wsResponseHandler parse chunk c)"
  using assms
  by (auto simp: wsResponseHandler_def Let_def call_inv_def same_request_def settle_def
      split: option.splits json.splits)

lemma deliver_inv:
  assumes "call_inv t c"
  shows "call_inv t (deliver h p chunk c) \<and> same_request c (deliver h p chunk c)"
proof (cases "c_conn c = p \<and> c_listening c")
  case True
  with assms responseHandler_inv wsResponseHandler_inv show ?thesis
    by (cases "c_kind c") (simp_all add: deliver_def)
next
  case False
  with assms show ?thesis by (auto simp: deliver_def same_request_def)
qed

lemma expire_inv:
  assumes "call_inv t c" and "t \<le> t'"
  shows "call_inv t' (expire t' c) \<and> same_request c (expire t' c)"
  using assms
  by (auto simp: expire_def timeout_def settle_def call_inv_def same_request_def
      split: outcome.splits)

lemma call_step_inv:
  assumes "call_inv t c" and "call_step h t t' c c'"
  shows "call_inv t' c' \<and> same_request c c' \<and> t \<le> t'"
  using assms deliver_inv expire_inv
  by (auto simp: call_step_def same_request_def)

lemma same_request_trans: "same_request c c' \<Longrightarrow> same_request c' c'' \<Longrightarrow> same_request c c''"
  by (simp add: same_request_def)

lemma run_call_inv:
  assumes "i < length (calls st)" and "call_inv (now st) (calls st ! i)"
  shows "i < length (calls (run h as st))
     \<and> call_inv (now (run h as st)) (calls (run h as st) ! i)
     \<and> same_request (calls st ! i) (calls (run h as st) ! i)
     \<and> now st \<le> now (run h as st)"
  using assms
proof (induction as arbitrary: st)
  case Nil
  then show ?case by (simp add: run_def same_request_def)
next
  case (Cons a as)
  from step_calls [OF Cons.prems(1), of h a]
  have i: "i < length (calls (step h a st))"
    and s: "call_step h (now st) (now (step h a st)) (calls st ! i) (calls (step h a st) ! i)"
    by simp_all
  from call_step_inv [OF Cons.prems(2) s]
  have inv: "call_inv (now (step h a st)) (calls (step h a st) ! i)"
    and same: "same_request (calls st ! i) (calls (step h a st) ! i)"
    and le: "now st \<le> now (step h a st)" by simp_all
  from Cons.IH [OF i inv] same le show ?case
    by (auto simp: run_def intro: same_request_trans)
qed

text \<open>
  C6. Take a request that \<open>sendMessage\<close> has sent at time \<open>now st\<close>, and any actions
  and events after it. As long as the clock is before \<open>now st + 120000\<close> the call has not
  been rejected. In every state in which the clock has reached \<open>now st + 120000\<close>, the
  handler of the call is no longer registered and the call is settled: rejected with the
  timeout error of its transport, unless a response has resolved it. A response that
  has resolved it bears the id of the request, so a call whose matching response never
  arrives is rejected by its timeout and by nothing else. The timers that are due run
  when the clock event is processed; the model has no later moment for them.
\<close>

theorem unanswered_call_times_out:
  assumes "sendMessage serverId msg k st = (Inr i, st1)"
  shows "(now (run h as st1) < now st + 120000 \<longrightarrow>
            (\<forall>e. c_outcome (calls (run h as st1) ! i) \<noteq> Rejected e))
     \<and> (now st + 120000 \<le> now (run h as st1) \<longrightarrow>
            \<not> c_listening (calls (run h as st1) ! i)
            \<and> c_outcome (calls (run h as st1) ! i) \<noteq> Pending
            \<and> ((\<forall>response. c_outcome (calls (run h as st1) ! i) \<noteq> Resolved response) \<longrightarrow>
                 c_outcome (calls (run h as st1) ! i)
                   = Rejected (timeout_error (c_kind (calls st1 ! i)) (serverName_of st serverId))))
     \<and> (\<forall>response. c_outcome (calls (run h as st1) ! i) = Resolved response \<longrightarrow>
            same_id (get_prop response ''id'') (m_id msg))"
proof -
  from assms obtain p where
    i: "i = length (calls st)"
    and st1: "calls st1 ! i =
       \<lparr> c_conn = p, c_kind = k_kind (handles st ! p), c_message = msg,
         c_serverName = serverName_of st serverId, c_buffer = [], c_parsed = [],
         c_listening = True, c_deadline = now st + timeoutMs, c_fired = False,
         c_outcome = Pending, c_then = k \<rparr>"
    and len: "i < length (calls st1)" and now: "now st1 = now st"
    by (auto simp: sendMessage_def Let_def split: option.splits if_splits)
  have inv0: "call_inv (now st1) (calls st1 ! i)"
    by (simp add: st1 now call_inv_def timeoutMs_def)
  let ?c = "calls (run h as st1) ! i"
  from run_call_inv [OF len inv0, of h as]
  have inv: "call_inv (now (run h as st1)) ?c" and same: "same_request (calls st1 ! i) ?c"
    by simp_all
  from same st1 have c: "c_deadline ?c = now st + 120000" "c_kind ?c = c_kind (calls st1 ! i)"
    "c_serverName ?c = serverName_of st serverId" "c_message ?c = msg"
    by (simp_all add: same_request_def timeoutMs_def)
  from inv c show ?thesis
    by (cases "c_outcome ?c") (auto simp: call_inv_def)
qed

subsection \<open>Tool lists and discovery\<close>











subsection \<open>The properties on the concrete inputs\<close>



lemma one_call_eq:
  "executeTool ''fs'' placeholder_call fs_connected = (Inr 1, one_call)"
  "sendMessage ''fs'' (tools_call 5000 placeholder_call) ToolCall fs_connected = (Inr 1, one_call)"
  by (simp_all add: one_call_def executeTool_def sendMessage_def servers_get_def Let_def
      fs_connected_def fs_server_def placeholder_tool_def placeholder_call_def fs_child_def)

theorem unanswered_call_times_out_witness:
  "sendMessage ''fs'' (tools_call 5000 placeholder_call) ToolCall fs_connected = (Inr 1, one_call)
   \<and> now fs_connected = 5000
   \<and> now (run example_host [DisconnectServer ''fs'', Clock 124999] one_call) = 124999
   \<and> c_outcome (calls (run example_host [DisconnectServer ''fs'', Clock 124999] one_call) ! 1) = Pending
   \<and> now (run example_host [DisconnectServer ''fs'', Clock 125000] one_call) = 125000
   \<and> \<not> c_listening (calls (run example_host [DisconnectServer ''fs'', Clock 125000] one_call) ! 1)
   \<and> c_outcome (calls (run example_host [DisconnectServer ''fs'', Clock 125000] one_call) ! 1)
       = Rejected (RequestTimeout ''FS'')"
proof -
  have a: "sendMessage ''fs'' (tools_call 5000 placeholder_call) ToolCall fs_connected = (Inr 1, one_call)"
    by (rule one_call_eq)
  have st: "one_call = fs_connected\<lparr>
      handles := [fs_child\<lparr> k_sent := [initialize_request, tools_call 5000 placeholder_call] \<rparr>],
      calls := [initialize_call,
         \<lparr> c_conn = 0, c_kind = ChildProcess, c_message = tools_call 5000 placeholder_call,
           c_serverName = ''FS'', c_buffer = [], c_parsed = [], c_listening = True,
           c_deadline = 5000 + timeoutMs, c_fired = False, c_outcome = Pending,
           c_then = ToolCall \<rparr>] \<rparr>"
    by (simp add: one_call_def executeTool_def sendMessage_def servers_get_def serverName_of_def
        Let_def fs_connected_def fs_server_def placeholder_tool_def placeholder_call_def fs_child_def)
  have n: "now fs_connected = 5000" by (simp add: fs_connected_def)
  have early: "now (run example_host [DisconnectServer ''fs'', Clock 124999] one_call) = 124999
     \<and> c_outcome (calls (run example_host [DisconnectServer ''fs'', Clock 124999] one_call) ! 1) = Pending"
    by (simp add: st run_def disconnectServer_def on_clock_def set_status_def Let_def
        after_handlers_def settled_def expire_def timeout_def timeout_error_def settle_def
        resume_def timeoutMs_def fs_connected_def initialize_call_def fs_child_def fs_server_def)
  have late: "now (run example_host [DisconnectServer ''fs'', Clock 125000] one_call) = 125000
     \<and> c_outcome (calls (run example_host [DisconnectServer ''fs'', Clock 125000] one_call) ! 1)
          = Rejected (RequestTimeout ''FS'')"
    by (simp add: st run_def disconnectServer_def on_clock_def set_status_def Let_def
        after_handlers_def settled_def expire_def timeout_def timeout_error_def settle_def
        resume_def timeoutMs_def fs_connected_def initialize_call_def fs_child_def fs_server_def)
  from unanswered_call_times_out [OF a, of example_host "[DisconnectServer ''fs'', Clock 125000]"] n late
  have "\<not> c_listening (calls (run example_host [DisconnectServer ''fs'', Clock 125000] one_call) ! 1)"
    by simp
  with a n early late show ?thesis by simp
qed

subsection \<open>Request ids\<close>

lemma toString_ok_line: "toString (bytes (ok_line @ [CHR 0x0A])) = ascii ok_line @ [10]"
  by (simp add: toString_def bytes_def ascii_def ok_line_def)

lemma split_ok_line: "split_lines (ascii ok_line @ [10]) = [ascii ok_line, []]"
  by (simp add: ascii_def ok_line_def)

lemma trim_ok_line: "trim (ascii ok_line) = ascii ok_line"
  by (simp add: trim_def ascii_def ok_line_def white_space_def)

lemma ok_line_nonempty: "ascii ok_line \<noteq> []"
  by (simp add: ascii_def ok_line_def)

lemma parse_ok_line: "JSON_parse example_host (ascii ok_line) = Some ok_response"
  by (simp add: example_host_def ok_line_def)

lemma one_call_state:
  "one_call = fs_connected\<lparr>
      handles := [fs_child\<lparr> k_sent := [initialize_request, tools_call 5000 placeholder_call] \<rparr>],
      calls := [initialize_call,
         \<lparr> c_conn = 0, c_kind = ChildProcess, c_message = tools_call 5000 placeholder_call,
           c_serverName = ''FS'', c_buffer = [], c_parsed = [], c_listening = True,
           c_deadline = 5000 + timeoutMs, c_fired = False, c_outcome = Pending,
           c_then = ToolCall \<rparr>] \<rparr>"
  by (simp add: one_call_def executeTool_def sendMessage_def servers_get_def serverName_of_def
      Let_def fs_connected_def fs_server_def placeholder_tool_def placeholder_call_def fs_child_def)

lemma two_calls_state:
  "executeTool ''fs'' second_call one_call = (Inr 2, two_calls)"
  "two_calls = fs_connected\<lparr>
      handles := [fs_child\<lparr> k_sent := [initialize_request, tools_call 5000 placeholder_call,
                                         tools_call 5000 second_call] \<rparr>],
      calls := [initialize_call,
         \<lparr> c_conn = 0, c_kind = ChildProcess, c_message = tools_call 5000 placeholder_call,
           c_serverName = ''FS'', c_buffer = [], c_parsed = [], c_listening = True,
           c_deadline = 5000 + timeoutMs, c_fired = False, c_outcome = Pending,
           c_then = ToolCall \<rparr>,
         \<lparr> c_conn = 0, c_kind = ChildProcess, c_message = tools_call 5000 second_call,
           c_serverName = ''FS'', c_buffer = [], c_parsed = [], c_listening = True,
           c_deadline = 5000 + timeoutMs, c_fired = False, c_outcome = Pending,
           c_then = ToolCall \<rparr>] \<rparr>"
  by (simp_all add: two_calls_def one_call_state executeTool_def sendMessage_def servers_get_def
      serverName_of_def Let_def fs_connected_def fs_server_def placeholder_tool_def second_call_def
      fs_child_def)

text \<open>The id of a tool call is the clock, and sending the request does not move the clock.\<close>

lemma executeTool_id_is_clock:
  assumes "executeTool serverId toolCall st = (Inr i, st')"
  shows "m_id (c_message (calls st' ! i)) = Some (int (now st)) \<and> now st' = now st
     \<and> c_outcome (calls st' ! i) = Pending"
  using assms
  by (auto simp: executeTool_def sendMessage_def tools_call_def Let_def
      split: option.splits if_splits)

text \<open>
  C4 fails on the code. \<open>executeTool\<close> takes \<open>Date.now()\<close> as the id of its request, so
  two tool calls on one provider in the same millisecond carry the same id: both
  requests are written with id 5000 and both are pending at once. The one reply with
  id 5000 then resolves both calls with the same response.
\<close>

theorem same_millisecond_same_id:
  "executeTool ''fs'' placeholder_call fs_connected = (Inr 1, one_call)
   \<and> executeTool ''fs'' second_call one_call = (Inr 2, two_calls)
   \<and> map (\<lambda>c. m_id (c_message c)) (calls two_calls) = [Some 1, Some 5000, Some 5000]
   \<and> map c_outcome (calls two_calls) = [Pending, Pending, Pending]
   \<and> map m_id (k_sent (handles two_calls ! 0)) = [Some 1, Some 5000, Some 5000]
   \<and> map c_outcome (calls (on_data example_host 0 (bytes (ok_line @ [CHR 0x0A])) two_calls))
       = [Pending, Resolved ok_response, Resolved ok_response]"
proof -
  have a: "map (\<lambda>c. m_id (c_message c)) (calls two_calls) = [Some 1, Some 5000, Some 5000]
     \<and> map c_outcome (calls two_calls) = [Pending, Pending, Pending]
     \<and> map m_id (k_sent (handles two_calls ! 0)) = [Some 1, Some 5000, Some 5000]"
    by (simp add: two_calls_state fs_connected_def initialize_call_def initialize_request_def
        tools_call_def fs_child_def)
  have b: "map c_outcome (calls (on_data example_host 0 (bytes (ok_line @ [CHR 0x0A])) two_calls))
       = [Pending, Resolved ok_response, Resolved ok_response]"
    by (simp add: on_data_def has_kind_def two_calls_state(2) fs_connected_def fs_child_def
        toString_ok_line deliver_def responseHandler_def split_ok_line trim_ok_line parse_ok_line
        ok_line_nonempty
        Let_def initialize_call_def initialize_request_def tools_call_def ok_response_def
        same_id_def settle_def after_handlers_def settled_def resume_def)
  from a b one_call_eq(1) two_calls_state(1) show ?thesis by simp
qed

subsection \<open>Chunks of text\<close>

text \<open>
  On text, the stdio handler does not depend on where the chunks are cut: fed chunk by
  chunk or fed the concatenation at once, it parses the same lines in the same order
  and settles the call in the same way. The same holds for chunks of bytes that are all
  ASCII, where decoding a chunk by itself loses nothing.
\<close>

lemma split_lines_nonempty: "split_lines s \<noteq> []"
  by (induction s) (auto split: list.splits)

lemma split_lines_append:
  "split_lines (u @ v) = butlast (split_lines u) @ split_lines (last (split_lines u) @ v)"
proof (induction u)
  case Nil
  then show ?case by simp
next
  case (Cons c u)
  obtain l ls where s: "split_lines u = l # ls"
    using split_lines_nonempty [of u] by (cases "split_lines u") auto
  show ?case
  proof (cases "c = 10")
    case True
    then show ?thesis using Cons s by simp
  next
    case False
    show ?thesis
    proof (cases ls)
      case Nil
      with s Cons have "split_lines (u @ v) = split_lines (l @ v)" by simp
      moreover obtain k ks where "split_lines (l @ v) = k # ks"
        using split_lines_nonempty [of "l @ v"] by (cases "split_lines (l @ v)") auto
      ultimately show ?thesis using False s Nil by simp
    next
      case (Cons m ms)
      with s Cons.IH have "split_lines (u @ v) = l # (butlast ls @ split_lines (last ls @ v))"
        by simp
      then show ?thesis using False s Cons by simp
    qed
  qed
qed

lemma split_lines_no_newline: "10 \<notin> set s \<Longrightarrow> split_lines s = [s]"
  by (induction s) auto

lemma last_split_lines: "10 \<notin> set (last (split_lines s))"
proof (induction s)
  case Nil
  then show ?case by simp
next
  case (Cons c s)
  obtain l ls where "split_lines s = l # ls"
    using split_lines_nonempty [of s] by (cases "split_lines s") auto
  with Cons show ?case by (cases ls) auto
qed

lemma split_lines_join:
  "concat (map (\<lambda>l. l @ [10]) (butlast (split_lines s))) @ last (split_lines s) = s"
proof (induction s)
  case Nil
  then show ?case by simp
next
  case (Cons c s)
  obtain l ls where "split_lines s = l # ls"
    using split_lines_nonempty [of s] by (cases "split_lines s") auto
  with Cons show ?case by (cases ls) (auto split: if_splits)
qed

lemma process_lines_append:
  "process_lines parse mid (ls @ ms) n parsed =
     (case process_lines parse mid ls n parsed of
        (Some response, n', parsed') \<Rightarrow> (Some response, n', parsed')
      | (None, n', parsed') \<Rightarrow> process_lines parse mid ms n' parsed')"
  by (induction ls arbitrary: n parsed) (auto simp: Let_def split: option.splits json.splits)

lemma process_lines_length:
  "fst (process_lines parse mid ls n parsed) = None
   \<Longrightarrow> fst (snd (process_lines parse mid ls n parsed)) = n + length (concat (map (\<lambda>l. l @ [10]) ls))"
  by (induction ls arbitrary: n parsed)
     (auto simp: Let_def split: option.splits json.splits if_splits)

lemma process_lines_start:
  "fst (process_lines parse mid ls n parsed) = fst (process_lines parse mid ls 0 parsed)
   \<and> snd (snd (process_lines parse mid ls n parsed)) = snd (snd (process_lines parse mid ls 0 parsed))"
proof (induction ls arbitrary: n parsed)
  case Nil
  then show ?case by simp
next
  case (Cons l ls)
  have "\<And>p. fst (process_lines parse mid ls (n + (length l + 1)) p)
        = fst (process_lines parse mid ls (length l + 1) p)
      \<and> snd (snd (process_lines parse mid ls (n + (length l + 1)) p))
        = snd (snd (process_lines parse mid ls (length l + 1) p))"
    using Cons.IH [of "n + (length l + 1)"] Cons.IH [of "length l + 1"] by simp
  then show ?case
    by (auto simp: Let_def split: option.splits json.splits)
qed

text \<open>The handler in terms of the lines alone: what it keeps is the last, unfinished line.\<close>

lemma responseHandler_lines:
  "responseHandler parse chunk c =
     (case process_lines parse (m_id (c_message c)) (butlast (split_lines (c_buffer c @ chunk))) 0
             (c_parsed c) of
        (Some response, n, parsed) \<Rightarrow>
          settle (Resolved response)
            (c\<lparr> c_buffer := c_buffer c @ chunk, c_parsed := parsed, c_listening := False \<rparr>)
      | (None, n, parsed) \<Rightarrow>
          c\<lparr> c_buffer := last (split_lines (c_buffer c @ chunk)), c_parsed := parsed \<rparr>)"
proof -
  let ?b = "c_buffer c @ chunk"
  let ?ls = "butlast (split_lines ?b)"
  obtain m n parsed where p:
    "process_lines parse (m_id (c_message c)) ?ls 0 (c_parsed c) = (m, n, parsed)"
    by (cases "process_lines parse (m_id (c_message c)) ?ls 0 (c_parsed c)")
  show ?thesis
  proof (cases m)
    case (Some response)
    with p show ?thesis by (simp add: responseHandler_def Let_def)
  next
    case None
    with p have n: "n = length (concat (map (\<lambda>l. l @ [10]) ?ls))"
      using process_lines_length [of parse "m_id (c_message c)" ?ls 0 "c_parsed c"] by simp
    have j: "concat (map (\<lambda>l. l @ [10]) ?ls) @ last (split_lines ?b) = ?b"
      by (rule split_lines_join)
    have "(if n > 0 then drop n ?b else ?b) = last (split_lines ?b)"
    proof (cases "n > 0")
      case True
      have "drop n (concat (map (\<lambda>l. l @ [10]) ?ls) @ last (split_lines ?b)) = last (split_lines ?b)"
        by (simp add: n)
      with True j show ?thesis by simp
    next
      case False
      with n have "concat (map (\<lambda>l. l @ [10]) ?ls) = []" by simp
      with j False show ?thesis by simp
    qed
    with p None show ?thesis by (simp add: responseHandler_def Let_def)
  qed
qed

lemma agree_refl: "agree a a"
  by (simp add: agree_def same_frames_def)

lemma agree_sym: "agree a b \<Longrightarrow> agree b a"
  unfolding agree_def same_frames_def by metis

lemma agree_trans: "agree a b \<Longrightarrow> agree b c \<Longrightarrow> agree a c"
  unfolding agree_def same_frames_def by metis

lemma feed_text_Nil: "feed_text parse [] c = c"
  by (simp add: feed_text_def)

lemma feed_text_Cons:
  "feed_text parse (x # xs) c =
     feed_text parse xs (if c_listening c then responseHandler parse x c else c)"
  by (simp add: feed_text_def)

lemma feed_text_deaf: "\<not> c_listening c \<Longrightarrow> feed_text parse chunks c = c"
  by (induction chunks) (simp_all add: feed_text_Nil feed_text_Cons)

lemma agree_feed_text: "agree a b \<Longrightarrow> agree (feed_text parse xs a) (feed_text parse xs b)"
proof (cases "c_listening a")
  case True
  assume "agree a b"
  with True have "a = b" by (simp add: agree_def)
  then show ?thesis by (simp add: agree_refl)
next
  case False
  assume ab: "agree a b"
  with False have "\<not> c_listening b" by (simp add: agree_def same_frames_def)
  with False ab show ?thesis by (simp add: feed_text_deaf)
qed

lemma responseHandler_two_chunks:
  "agree (responseHandler parse (x @ y) c)
     (if c_listening (responseHandler parse x c)
      then responseHandler parse y (responseHandler parse x c)
      else responseHandler parse x c)"
  if "c_listening c"
proof -
  let ?b = "c_buffer c" and ?mid = "m_id (c_message c)"
  let ?L1 = "butlast (split_lines (?b @ x))" and ?R1 = "last (split_lines (?b @ x))"
  let ?L2 = "butlast (split_lines (?R1 @ y))"
  have lines: "butlast (split_lines (?b @ x @ y)) = ?L1 @ ?L2"
    and rest: "last (split_lines (?b @ x @ y)) = last (split_lines (?R1 @ y))"
    using split_lines_append [of "?b @ x" y] split_lines_nonempty [of "?R1 @ y"]
    by (simp_all add: butlast_append)
  obtain m1 n1 p1 where p1: "process_lines parse ?mid ?L1 0 (c_parsed c) = (m1, n1, p1)"
    by (cases "process_lines parse ?mid ?L1 0 (c_parsed c)")
  show ?thesis
  proof (cases m1)
    case (Some response)
    with p1 lines that show ?thesis
      by (simp add: responseHandler_lines [of parse _ c] process_lines_append settle_def
          agree_def same_frames_def)
  next
    case None
    let ?c1 = "c\<lparr> c_buffer := ?R1, c_parsed := p1 \<rparr>"
    from None p1 have c1: "responseHandler parse x c = ?c1"
      by (simp add: responseHandler_lines [of parse x c])
    obtain m2 n2 p2 where p2: "process_lines parse ?mid ?L2 0 p1 = (m2, n2, p2)"
      by (cases "process_lines parse ?mid ?L2 0 p1")
    obtain n2' where p2': "process_lines parse ?mid ?L2 n1 p1 = (m2, n2', p2)"
      using process_lines_start [of parse ?mid ?L2 n1 p1] p2
      by (cases "process_lines parse ?mid ?L2 n1 p1") simp
    have whole: "process_lines parse ?mid (butlast (split_lines (?b @ x @ y))) 0 (c_parsed c)
        = (m2, n2', p2)"
      using None p1 p2' by (simp add: lines process_lines_append)
    have second: "process_lines parse (m_id (c_message ?c1)) (butlast (split_lines (c_buffer ?c1 @ y))) 0
        (c_parsed ?c1) = (m2, n2, p2)"
      using p2 by simp
    show ?thesis
    proof (cases m2)
      case None
      with whole second that show ?thesis
        unfolding c1
        by (simp add: responseHandler_lines [of parse "x @ y" c] responseHandler_lines [of parse y ?c1]
            rest agree_def same_frames_def)
    next
      case (Some response)
      with whole second that show ?thesis
        unfolding c1
        by (simp add: responseHandler_lines [of parse "x @ y" c] responseHandler_lines [of parse y ?c1]
            settle_def agree_def same_frames_def)
    qed
  qed
qed

lemma feed_text_concat:
  "c_listening c \<Longrightarrow> agree (feed_text parse (x # xs) c) (responseHandler parse (concat (x # xs)) c)"
proof (induction xs arbitrary: x c)
  case Nil
  then show ?case by (simp add: feed_text_def agree_refl)
next
  case (Cons y ys)
  let ?c1 = "responseHandler parse x c"
  have two: "agree (responseHandler parse (x @ concat (y # ys)) c)
     (if c_listening ?c1 then responseHandler parse (concat (y # ys)) ?c1 else ?c1)"
    using responseHandler_two_chunks [OF Cons.prems] .
  have "agree (feed_text parse (y # ys) ?c1)
     (if c_listening ?c1 then responseHandler parse (concat (y # ys)) ?c1 else ?c1)"
  proof (cases "c_listening ?c1")
    case True
    with Cons.IH [OF True, of y] show ?thesis by simp
  next
    case False
    then show ?thesis by (simp add: feed_text_deaf agree_refl)
  qed
  from agree_trans [OF this agree_sym [OF two]] Cons.prems show ?case
    by (simp add: feed_text_Cons)
qed

lemma text_chunks_invariant:
  assumes "c_listening c" and "chunks \<noteq> []"
  shows "same_frames (feed_text parse chunks c) (feed_text parse [concat chunks] c)"
proof -
  from assms(2) obtain x xs where "chunks = x # xs" by (cases chunks) auto
  with feed_text_concat [OF assms(1), of parse x xs] assms(1) show ?thesis
    by (simp add: agree_def feed_text_def)
qed

lemma decode_ascii: "\<forall>b \<in> set bs. b < 0x80 \<Longrightarrow> decode bs = bs"
  by (induction bs) simp_all

lemma toString_ascii: "\<forall>b \<in> set data. b < 0x80 \<Longrightarrow> toString data = map unat data"
  by (simp add: toString_def decode_ascii word_less_nat_alt)

lemma responseHandler_conn:
  "c_conn (responseHandler parse chunk c) = c_conn c \<and> c_kind (responseHandler parse chunk c) = c_kind c"
  by (simp add: responseHandler_lines settle_def split: prod.splits option.splits)

lemma feed_is_feed_text:
  "c_kind c = ChildProcess \<Longrightarrow>
   fold (\<lambda>data. deliver h p (toString data)) chunks c
     = (if c_conn c = p then feed_text (JSON_parse h) (map toString chunks) c else c)"
proof (induction chunks arbitrary: c)
  case Nil
  then show ?case by (simp add: feed_text_Nil)
next
  case (Cons x xs)
  show ?case
  proof (cases "c_conn c = p \<and> c_listening c")
    case True
    with Cons.prems have d: "deliver h p (toString x) c = responseHandler (JSON_parse h) (toString x) c"
      by (simp add: deliver_def)
    from Cons.IH [of "responseHandler (JSON_parse h) (toString x) c"] Cons.prems True
    show ?thesis by (simp add: d feed_text_Cons responseHandler_conn)
  next
    case False
    then have d: "deliver h p (toString x) c = c" by (auto simp: deliver_def)
    from Cons.IH [OF Cons.prems] False show ?thesis
      by (auto simp: d feed_text_Cons)
  qed
qed

lemma ascii_chunks_invariant:
  assumes "c_listening c" and "c_kind c = ChildProcess" and "chunks \<noteq> []"
    and "\<forall>data \<in> set chunks. \<forall>b \<in> set data. b < 0x80"
  shows "same_frames (feed h chunks c) (feed h [concat chunks] c)"
proof -
  have "toString (concat chunks) = concat (map toString chunks)"
    using assms(4) by (simp add: toString_ascii map_concat cong: map_cong)
  with text_chunks_invariant [OF assms(1), of "map toString chunks" "JSON_parse h"] assms(1,2,3)
  show ?thesis
    by (simp add: feed_def feed_is_feed_text feed_text_Nil feed_text_Cons deliver_def)
qed

subsection \<open>Chunks that cut a character\<close>

lemma toString_reply:
  "toString (reply_head @ reply_tail) = reply_text @ [10]"
  "toString reply_head = ascii ''{\"id\":1,\"result\":\"'' @ [0xFFFD]"
  "toString reply_tail = [0xFFFD] @ ascii ''\"}'' @ [10]"
  by (simp_all add: toString_def reply_head_def reply_tail_def reply_text_def bytes_def ascii_def
      lead_byte_def utf16_def)

lemma responseHandler_no_line:
  assumes "split_lines (c_buffer c @ chunk) = [l]"
  shows "responseHandler parse chunk c = c\<lparr> c_buffer := c_buffer c @ chunk \<rparr>"
  using assms by (simp add: responseHandler_def Let_def)

lemma responseHandler_one_line:
  assumes "split_lines (c_buffer c @ chunk) = [l, rest]" and "trim l = l" and "l \<noteq> []"
  shows "c_parsed (responseHandler parse chunk c)
     = c_parsed c @ (case parse l of None \<Rightarrow> [] | Some response \<Rightarrow> [response])"
  using assms
  by (simp add: responseHandler_def Let_def settle_def split: option.splits json.splits)

lemma reply_lines:
  "split_lines (reply_text @ [10]) = [reply_text, []]"
  "split_lines (ascii ''{\"id\":1,\"result\":\"'' @ [0xFFFD]) = [ascii ''{\"id\":1,\"result\":\"'' @ [0xFFFD]]"
  "split_lines ((ascii ''{\"id\":1,\"result\":\"'' @ [0xFFFD]) @ [0xFFFD] @ ascii ''\"}'' @ [10])
     = [reply_text_split, []]"
  "trim reply_text = reply_text" "trim reply_text_split = reply_text_split"
  "reply_text \<noteq> []" "reply_text_split \<noteq> []" "reply_text \<noteq> reply_text_split"
  by (simp_all add: reply_text_def reply_text_split_def ascii_def trim_def white_space_def)

text \<open>
  C3 fails on the code. The handler decodes every chunk by itself, so a chunk border
  inside a multi-byte character changes the text: fed as one chunk, the reply is the
  line \<open>reply_text\<close>; fed as two chunks that cut the letter, it is \<open>reply_text_split\<close>,
  with two U+FFFD in place of the letter. The frame parsed is the value of \<open>JSON.parse\<close>
  on a different text.
\<close>

theorem split_character_changes_frame:
  "c_parsed (feed h [reply_head @ reply_tail] initialize_call)
     = (case JSON_parse h reply_text of None \<Rightarrow> [] | Some response \<Rightarrow> [response])
   \<and> c_parsed (feed h [reply_head, reply_tail] initialize_call)
     = (case JSON_parse h reply_text_split of None \<Rightarrow> [] | Some response \<Rightarrow> [response])
   \<and> reply_text \<noteq> reply_text_split"
proof -
  have c0: "c_conn initialize_call = 0" "c_listening initialize_call" "c_kind initialize_call = ChildProcess"
    "c_buffer initialize_call = []" "c_parsed initialize_call = []"
    by (simp_all add: initialize_call_def)
  have l0: "split_lines (c_buffer initialize_call @ toString (reply_head @ reply_tail)) = [reply_text, []]"
    by (simp add: c0 toString_reply reply_lines)
  have whole: "c_parsed (feed h [reply_head @ reply_tail] initialize_call)
     = (case JSON_parse h reply_text of None \<Rightarrow> [] | Some response \<Rightarrow> [response])"
    using responseHandler_one_line [OF l0 reply_lines(4) reply_lines(6), of "JSON_parse h"]
    by (simp add: feed_def deliver_def c0)
  let ?c1 = "initialize_call\<lparr> c_buffer := toString reply_head \<rparr>"
  have l1: "split_lines (c_buffer initialize_call @ toString reply_head) = [toString reply_head]"
    by (simp add: c0 toString_reply reply_lines)
  have first: "deliver h 0 (toString reply_head) initialize_call = ?c1"
    using responseHandler_no_line [OF l1, of "JSON_parse h"]
    by (simp add: deliver_def c0)
  have l2: "split_lines (c_buffer ?c1 @ toString reply_tail) = [reply_text_split, []]"
    by (simp add: toString_reply reply_text_split_def ascii_def)
  have second: "c_parsed (deliver h 0 (toString reply_tail) ?c1)
     = (case JSON_parse h reply_text_split of None \<Rightarrow> [] | Some response \<Rightarrow> [response])"
    using responseHandler_one_line [OF l2 reply_lines(5) reply_lines(7), of "JSON_parse h"]
    by (simp add: deliver_def c0)
  from whole first second show ?thesis
    by (simp add: feed_def c0 reply_lines)
qed

end
